theory Spec2Isabelle
  imports Main "HOL-Library.Word" "HOL-Library.Signed_Division"
begin

unbundle bit_operations_syntax

section \<open>olive2022: VMNetX image to containerDisk and Sinfonia recipe\<close>

text \<open>
  A shallow embedding of \<^verbatim>\<open>src/olive2022.py\<close>. Python strings are \<open>string\<close>, read as
  lists of code points below 256. Exceptions are values of the type \<open>error\<close>; a function
  that can raise returns \<open>error + 'a\<close>. The standard-library functions the program calls
  (\<^verbatim>\<open>urllib.parse.urlparse\<close>, \<^verbatim>\<open>urlunparse\<close>, \<^verbatim>\<open>uuid.uuid5\<close>, \<^verbatim>\<open>str.split\<close>, \<^verbatim>\<open>int\<close>)
  are embedded from CPython 3.11.
\<close>

datatype error =
    ValueError | KeyError | TypeError | EOFError | ZeroDivisionError | AssertionError
  | ParseError | BadZipFile | URLError | CalledProcessError | SystemExit
  | Gaierror | ConnectionRefusedError | SocketTimeout | OSError

subsection \<open>String methods\<close>

definition nl :: string where
  "nl = [CHR 0x0A]"

definition str_find :: "string \<Rightarrow> char \<Rightarrow> nat option" where
  \<comment> \<open>\<^verbatim>\<open>s.find(c)\<close>; \<open>None\<close> stands for -1\<close>
  "str_find s c = (if c \<in> set s then Some (length (takeWhile (\<lambda>x. x \<noteq> c) s)) else None)"

definition str_find_from :: "string \<Rightarrow> char \<Rightarrow> nat \<Rightarrow> nat option" where
  \<comment> \<open>\<^verbatim>\<open>s.find(c, start)\<close>\<close>
  "str_find_from s c start = map_option (\<lambda>i. start + i) (str_find (drop start s) c)"

definition str_rfind :: "string \<Rightarrow> char \<Rightarrow> nat option" where
  \<comment> \<open>\<^verbatim>\<open>s.rfind(c)\<close>\<close>
  "str_rfind s c =
     (if c \<in> set s then Some (length s - 1 - length (takeWhile (\<lambda>x. x \<noteq> c) (rev s))) else None)"

definition str_split1 :: "string \<Rightarrow> char \<Rightarrow> string list" where
  \<comment> \<open>\<^verbatim>\<open>s.split(c, 1)\<close>: at most one split, at the first \<open>c\<close>\<close>
  "str_split1 s c =
     (if c \<in> set s then [takeWhile (\<lambda>x. x \<noteq> c) s, tl (dropWhile (\<lambda>x. x \<noteq> c) s)] else [s])"

definition unpack2 :: "'a list \<Rightarrow> error + ('a \<times> 'a)" where
  \<comment> \<open>the tuple assignment \<^verbatim>\<open>a, b = xs\<close>\<close>
  "unpack2 xs = (case xs of [a, b] \<Rightarrow> Inr (a, b) | _ \<Rightarrow> Inl ValueError)"

definition startswith :: "string \<Rightarrow> string \<Rightarrow> bool" where
  "startswith s p = (take (length p) s = p)"

definition lower_char :: "char \<Rightarrow> char" where
  \<comment> \<open>only ASCII letters are folded: the program lowers a scheme made of \<open>scheme_chars\<close>
      and an answer tested against \<^verbatim>\<open>"yes"\<close>\<close>
  "lower_char c =
     (case map_of (zip ''ABCDEFGHIJKLMNOPQRSTUVWXYZ'' ''abcdefghijklmnopqrstuvwxyz'') c of
        Some l \<Rightarrow> l | None \<Rightarrow> c)"

definition str_lower :: "string \<Rightarrow> string" where
  "str_lower s = map lower_char s"

definition isascii :: "string \<Rightarrow> bool" where
  "isascii s = (\<forall>c \<in> set s. (of_char c :: nat) < 128)"

definition isalpha :: "char \<Rightarrow> bool" where
  \<comment> \<open>used on a character already known to be ASCII\<close>
  "isalpha c = (c \<in> set ''abcdefghijklmnopqrstuvwxyzABCDEFGHIJKLMNOPQRSTUVWXYZ'')"

subsection \<open>urllib.parse\<close>

definition uses_netloc :: "string list" where
  "uses_netloc = ['''', ''ftp'', ''http'', ''gopher'', ''nntp'', ''telnet'',
     ''imap'', ''wais'', ''file'', ''mms'', ''https'', ''shttp'',
     ''snews'', ''prospero'', ''rtsp'', ''rtsps'', ''rtspu'', ''rsync'',
     ''svn'', ''svn+ssh'', ''sftp'', ''nfs'', ''git'', ''git+ssh'',
     ''ws'', ''wss'']"

definition uses_params :: "string list" where
  "uses_params = ['''', ''ftp'', ''hdl'', ''prospero'', ''http'', ''imap'',
     ''https'', ''shttp'', ''rtsp'', ''rtsps'', ''rtspu'', ''sip'',
     ''sips'', ''mms'', ''sftp'', ''tel'']"

definition scheme_chars :: string where
  "scheme_chars = ''abcdefghijklmnopqrstuvwxyzABCDEFGHIJKLMNOPQRSTUVWXYZ0123456789+-.''"

definition C0_CONTROL_OR_SPACE :: "char \<Rightarrow> bool" where
  \<comment> \<open>membership in \<^verbatim>\<open>_WHATWG_C0_CONTROL_OR_SPACE\<close>, the code points 0 to 0x20\<close>
  "C0_CONTROL_OR_SPACE c = ((of_char c :: nat) \<le> 32)"

definition UNSAFE_URL_BYTES_TO_REMOVE :: string where
  "UNSAFE_URL_BYTES_TO_REMOVE = [CHR 0x09, CHR 0x0D, CHR 0x0A]"

text \<open>
  Two checks of \<^verbatim>\<open>urlsplit\<close> are delegated to other library modules and are not embedded:
  \<^verbatim>\<open>_check_bracketed_host\<close> (module \<^verbatim>\<open>ipaddress\<close>) and the NFKC test of
  \<^verbatim>\<open>_checknetloc\<close> (module \<^verbatim>\<open>unicodedata\<close>, reached only for a non-ASCII netloc). They are
  parameters; \<open>True\<close> means that the check passes, \<open>False\<close> that it raises ValueError.
\<close>

record stdlib =
  check_bracketed_host :: "string \<Rightarrow> bool"
  checknetloc_nfkc :: "string \<Rightarrow> bool"

definition splitnetloc :: "string \<Rightarrow> nat \<Rightarrow> string \<times> string" where
  "splitnetloc url start =
     (let delim = foldl (\<lambda>delim c. case str_find_from url c start of
                                      Some wdelim \<Rightarrow> min delim wdelim
                                    | None \<Rightarrow> delim)
                        (length url) ''/?#''
      in (drop start (take delim url), drop delim url))"

definition split_scheme :: "string \<Rightarrow> string \<times> string" where
  \<comment> \<open>the scheme recognition of \<^verbatim>\<open>urlsplit\<close>, with the default scheme \<^verbatim>\<open>''\<close>\<close>
  "split_scheme url =
     (case str_find url CHR '':'' of
        Some i \<Rightarrow>
          if 0 < i \<and> isascii [hd url] \<and> isalpha (hd url)
             \<and> (\<forall>c \<in> set (take i url). c \<in> set scheme_chars)
          then (str_lower (take i url), drop (i + 1) url)
          else ('''', url)
      | None \<Rightarrow> ('''', url))"

definition netloc_brackets_ok :: "stdlib \<Rightarrow> string \<Rightarrow> bool" where
  "netloc_brackets_ok lib netloc =
     (if (CHR ''['' \<in> set netloc \<and> CHR '']'' \<notin> set netloc)
         \<or> (CHR '']'' \<in> set netloc \<and> CHR ''['' \<notin> set netloc) then False
      else if CHR ''['' \<in> set netloc \<and> CHR '']'' \<in> set netloc
      then check_bracketed_host lib
             (takeWhile (\<lambda>x. x \<noteq> CHR '']'') (tl (dropWhile (\<lambda>x. x \<noteq> CHR ''['') netloc)))
      else True)"

definition checknetloc :: "stdlib \<Rightarrow> string \<Rightarrow> bool" where
  "checknetloc lib netloc = (netloc = [] \<or> isascii netloc \<or> checknetloc_nfkc lib netloc)"

definition split_fragment :: "string \<Rightarrow> string \<times> string" where
  \<comment> \<open>\<^verbatim>\<open>if '#' in url: url, fragment = url.split('#', 1)\<close>\<close>
  "split_fragment url =
     (if CHR ''#'' \<in> set url
      then (takeWhile (\<lambda>x. x \<noteq> CHR ''#'') url, tl (dropWhile (\<lambda>x. x \<noteq> CHR ''#'') url))
      else (url, []))"

definition split_query :: "string \<Rightarrow> string \<times> string" where
  \<comment> \<open>\<^verbatim>\<open>if '?' in url: url, query = url.split('?', 1)\<close>\<close>
  "split_query url =
     (if CHR ''?'' \<in> set url
      then (takeWhile (\<lambda>x. x \<noteq> CHR ''?'') url, tl (dropWhile (\<lambda>x. x \<noteq> CHR ''?'') url))
      else (url, []))"

definition urlsplit :: "stdlib \<Rightarrow> string \<Rightarrow> error + (string \<times> string \<times> string \<times> string \<times> string)" where
  "urlsplit lib url0 =
     (let url1 = filter (\<lambda>c. c \<notin> set UNSAFE_URL_BYTES_TO_REMOVE) (dropWhile C0_CONTROL_OR_SPACE url0);
          (scheme, url2) = split_scheme url1;
          (netloc, url3) = (if take 2 url2 = ''//'' then splitnetloc url2 2 else ([], url2))
      in if take 2 url2 = ''//'' \<and> \<not> netloc_brackets_ok lib netloc then Inl ValueError
         else
           let (url4, fragment) = split_fragment url3;
               (url5, query) = split_query url4
           in if \<not> checknetloc lib netloc then Inl ValueError
              else Inr (scheme, netloc, url5, query, fragment))"

definition splitparams :: "string \<Rightarrow> string \<times> string" where
  "splitparams url =
     (case str_rfind url CHR ''/'' of
        Some r \<Rightarrow>
          (case str_find_from url CHR '';'' r of
             None \<Rightarrow> (url, '''')
           | Some i \<Rightarrow> (take i url, drop (i + 1) url))
      | None \<Rightarrow>
          (case str_find url CHR '';'' of
             None \<Rightarrow> (butlast url, url)
           | Some i \<Rightarrow> (take i url, drop (i + 1) url)))"

definition urlparse ::
  "stdlib \<Rightarrow> string \<Rightarrow> error + (string \<times> string \<times> string \<times> string \<times> string \<times> string)" where
  "urlparse lib url =
     (case urlsplit lib url of
        Inl e \<Rightarrow> Inl e
      | Inr (scheme, netloc, url', query, fragment) \<Rightarrow>
          if scheme \<in> set uses_params \<and> CHR '';'' \<in> set url'
          then (case splitparams url' of
                  (url'', params) \<Rightarrow> Inr (scheme, netloc, url'', params, query, fragment))
          else Inr (scheme, netloc, url', '''', query, fragment))"

definition or_empty :: "string option \<Rightarrow> string" where
  \<comment> \<open>\<^verbatim>\<open>None\<close> and the empty string are both false in a condition\<close>
  "or_empty x = (case x of None \<Rightarrow> [] | Some s \<Rightarrow> s)"

definition urlunsplit :: "string \<Rightarrow> string \<Rightarrow> string \<Rightarrow> string option \<Rightarrow> string option \<Rightarrow> string" where
  "urlunsplit scheme netloc url query fragment =
     (let url1 = (if netloc \<noteq> [] \<or> (scheme \<noteq> [] \<and> scheme \<in> set uses_netloc) \<or> take 2 url = ''//''
                  then ''//'' @ netloc @ (if url \<noteq> [] \<and> take 1 url \<noteq> ''/'' then ''/'' @ url else url)
                  else url);
          url2 = (if scheme \<noteq> [] then scheme @ '':'' @ url1 else url1);
          url3 = (if or_empty query \<noteq> [] then url2 @ ''?'' @ or_empty query else url2)
      in if or_empty fragment \<noteq> [] then url3 @ ''#'' @ or_empty fragment else url3)"

definition urlunparse ::
  "string \<Rightarrow> string \<Rightarrow> string \<Rightarrow> string option \<Rightarrow> string option \<Rightarrow> string option \<Rightarrow> string" where
  "urlunparse scheme netloc url params query fragment =
     urlunsplit scheme netloc
       (if or_empty params \<noteq> [] then url @ '';'' @ or_empty params else url) query fragment"

subsection \<open>hashlib.sha1 and uuid.uuid5\<close>

text \<open>
  SHA-1 as in FIPS 180-4, on 32-bit words: the message is padded to a multiple of 64
  bytes, each block of sixteen words runs eighty rounds in four stages of twenty, and the
  message schedule is kept as a window of the sixteen most recent words.
\<close>

type_synonym u8 = "8 word"
type_synonym u32 = "32 word"
type_synonym UUID = "128 word"

definition rotl32 :: "nat \<Rightarrow> u32 \<Rightarrow> u32" where
  "rotl32 n w = push_bit n w OR drop_bit (32 - n) w"

fun words32 :: "u8 list \<Rightarrow> u32 list" where
  "words32 (a # b # c # d # rest) =
     (push_bit 24 (ucast a) OR push_bit 16 (ucast b) OR push_bit 8 (ucast c) OR ucast d)
       # words32 rest"
| "words32 _ = []"

definition be_bytes64 :: "64 word \<Rightarrow> u8 list" where
  "be_bytes64 n = map (\<lambda>i. ucast (drop_bit (8 * i) n)) [7, 6, 5, 4, 3, 2, 1, 0]"

definition be_bytes32 :: "u32 \<Rightarrow> u8 list" where
  "be_bytes32 n = map (\<lambda>i. ucast (drop_bit (8 * i) n)) [3, 2, 1, 0]"

definition sha1_pad :: "u8 list \<Rightarrow> u8 list" where
  "sha1_pad m = m @ [0x80] @ replicate ((119 - length m mod 64) mod 64) 0
                  @ be_bytes64 (of_nat (8 * length m))"

definition Ch :: "u32 \<Rightarrow> u32 \<Rightarrow> u32 \<Rightarrow> u32" where
  "Ch b c d = (b AND c) OR (NOT b AND d)"

definition Parity :: "u32 \<Rightarrow> u32 \<Rightarrow> u32 \<Rightarrow> u32" where
  "Parity b c d = b XOR c XOR d"

definition Maj :: "u32 \<Rightarrow> u32 \<Rightarrow> u32 \<Rightarrow> u32" where
  "Maj b c d = (b AND c) OR (b AND d) OR (c AND d)"

definition schedule :: "u32 list \<Rightarrow> u32 list" where
  "schedule w = tl w @ [rotl32 1 (w ! 13 XOR w ! 8 XOR w ! 2 XOR w ! 0)]"

type_synonym sha1_state = "u32 \<times> u32 \<times> u32 \<times> u32 \<times> u32"

fun sha1_round ::
  "(u32 \<Rightarrow> u32 \<Rightarrow> u32 \<Rightarrow> u32) \<Rightarrow> u32 \<Rightarrow> u32 list \<times> sha1_state \<Rightarrow> u32 list \<times> sha1_state" where
  "sha1_round f k (w, a, b, c, d, e) =
     (schedule w, rotl32 5 a + f b c d + e + k + hd w, a, rotl32 30 b, c, d)"

declare sha1_round.simps [simp del]

fun sha1_block :: "sha1_state \<Rightarrow> u32 list \<Rightarrow> sha1_state" where
  "sha1_block (h0, h1, h2, h3, h4) w =
     (case (sha1_round Parity 0xCA62C1D6 ^^ 20) ((sha1_round Maj 0x8F1BBCDC ^^ 20)
             ((sha1_round Parity 0x6ED9EBA1 ^^ 20) ((sha1_round Ch 0x5A827999 ^^ 20)
               (w, h0, h1, h2, h3, h4)))) of
        (_, a, b, c, d, e) \<Rightarrow> (h0 + a, h1 + b, h2 + c, h3 + d, h4 + e))"

fun blocks16 :: "u32 list \<Rightarrow> u32 list list" where
  "blocks16 ws = (if length ws < 16 then [] else take 16 ws # blocks16 (drop 16 ws))"

declare blocks16.simps [simp del]

definition sha1 :: "u8 list \<Rightarrow> u8 list" where
  \<comment> \<open>\<^verbatim>\<open>sha1(m).digest()\<close>, twenty bytes\<close>
  "sha1 m =
     (case foldl sha1_block (0x67452301, 0xEFCDAB89, 0x98BADCFE, 0x10325476, 0xC3D2E1F0)
             (blocks16 (words32 (sha1_pad m))) of
        (h0, h1, h2, h3, h4) \<Rightarrow>
          be_bytes32 h0 @ be_bytes32 h1 @ be_bytes32 h2 @ be_bytes32 h3 @ be_bytes32 h4)"

definition utf8 :: "string \<Rightarrow> u8 list" where
  \<comment> \<open>\<^verbatim>\<open>bytes(name, "utf-8")\<close> for code points below 256\<close>
  "utf8 s = concat (map (\<lambda>c. if (of_char c :: nat) < 128 then [of_char c]
                               else [0xC0 OR drop_bit 6 (of_char c), 0x80 OR (of_char c AND 0x3F)]) s)"

definition uuid_bytes :: "UUID \<Rightarrow> u8 list" where
  \<comment> \<open>the property \<^verbatim>\<open>UUID.bytes\<close>: sixteen bytes, big endian\<close>
  "uuid_bytes u = map (\<lambda>i. ucast (drop_bit (8 * i) u)) [15, 14, 13, 12, 11, 10, 9, 8, 7, 6, 5, 4, 3, 2, 1, 0]"

definition int_from_bytes :: "u8 list \<Rightarrow> UUID" where
  \<comment> \<open>\<^verbatim>\<open>int.from_bytes(bytes)\<close> of sixteen bytes, big endian\<close>
  "int_from_bytes bs = foldl (\<lambda>acc b. push_bit 8 acc OR ucast b) 0 bs"

definition UUID_version :: "UUID \<Rightarrow> UUID \<Rightarrow> UUID" where
  \<comment> \<open>the constructor \<^verbatim>\<open>UUID(bytes=..., version=v)\<close>: RFC 4122 variant, version \<open>v\<close>\<close>
  "UUID_version i v =
     (((i AND NOT (push_bit 48 0xc000)) OR push_bit 48 0x8000) AND NOT (push_bit 64 0xf000))
       OR push_bit 76 v"

definition uuid5 :: "UUID \<Rightarrow> string \<Rightarrow> UUID" where
  "uuid5 namespace name =
     UUID_version (int_from_bytes (take 16 (sha1 (uuid_bytes namespace @ utf8 name)))) 5"

definition hexdigit :: "UUID \<Rightarrow> char" where
  "hexdigit d = ''0123456789abcdef'' ! unat (d AND 0xF)"

definition str_uuid :: "UUID \<Rightarrow> string" where
  \<comment> \<open>\<^verbatim>\<open>str(uuid)\<close>: 32 hexadecimal digits in groups of 8, 4, 4, 4 and 12\<close>
  "str_uuid u =
     (let hex = map (\<lambda>i. hexdigit (drop_bit (4 * i) u)) (rev [0..<32])
      in take 8 hex @ ''-'' @ take 4 (drop 8 hex) @ ''-'' @ take 4 (drop 12 hex) @ ''-''
         @ take 4 (drop 16 hex) @ ''-'' @ drop 20 hex)"

subsection \<open>Identity derivation\<close>

definition NAMESPACE_OLIVEARCHIVE :: UUID where
  "NAMESPACE_OLIVEARCHIVE = 0x835a9728a1f74d0f82f8cd0da8838673"

definition canonical_url :: "stdlib \<Rightarrow> string \<Rightarrow> error + string" where
  \<comment> \<open>lines 45 and 46 of \<^verbatim>\<open>vmnetx_url_to_uuid\<close>\<close>
  "canonical_url lib url =
     (case urlparse lib url of
        Inl e \<Rightarrow> Inl e
      | Inr (schema, netloc, path, params, query, fragment) \<Rightarrow>
          Inr (urlunparse ''vmnetx+https'' netloc path None None None))"

definition vmnetx_url_to_uuid :: "stdlib \<Rightarrow> string \<Rightarrow> error + UUID" where
  "vmnetx_url_to_uuid lib url =
     (case canonical_url lib url of
        Inl e \<Rightarrow> Inl e
      | Inr canonical \<Rightarrow> Inr (uuid5 NAMESPACE_OLIVEARCHIVE canonical))"
subsection \<open>Locators that differ only in scheme, query and fragment\<close>

text \<open>
  A locator is written as \<open>scheme @ ''://'' @ netloc @ path @ tail\<close>. \<open>locator_parts\<close> says
  that the four strings are what they are called: the scheme is one that \<^verbatim>\<open>urlsplit\<close>
  recognises, the network location holds no delimiter, the path is empty or starts with a
  slash and holds no \<open>?\<close> or \<open>#\<close>, and the tail is empty or starts the query or the fragment.
\<close>

definition netloc_delim :: "char \<Rightarrow> bool" where
  "netloc_delim c = (c \<in> set ''/?#'')"

definition is_scheme :: "string \<Rightarrow> bool" where
  "is_scheme s =
     (s \<noteq> [] \<and> isascii [hd s] \<and> isalpha (hd s) \<and> (\<forall>c \<in> set s. c \<in> set scheme_chars))"

definition locator_parts :: "string \<Rightarrow> string \<Rightarrow> string \<Rightarrow> string \<Rightarrow> bool" where
  "locator_parts s n p t =
     (is_scheme s \<and> (\<forall>c \<in> set n. \<not> netloc_delim c)
      \<and> (p = [] \<or> hd p = CHR ''/'') \<and> CHR ''?'' \<notin> set p \<and> CHR ''#'' \<notin> set p
      \<and> (t = [] \<or> hd t = CHR ''?'' \<or> hd t = CHR ''#''))"

definition last_segment :: "string \<Rightarrow> string" where
  \<comment> \<open>what follows the last slash of a path\<close>
  "last_segment p = rev (takeWhile (\<lambda>x. x \<noteq> CHR ''/'') (rev p))"

definition clean :: "string \<Rightarrow> string" where
  \<comment> \<open>the removal of tab, carriage return and line feed that \<^verbatim>\<open>urlsplit\<close> starts with\<close>
  "clean u = filter (\<lambda>c. c \<notin> set UNSAFE_URL_BYTES_TO_REMOVE) u"

definition accepting :: stdlib where
  \<comment> \<open>library checks that pass; used for inputs on which they are not consulted\<close>
  "accepting = \<lparr>check_bracketed_host = (\<lambda>_. True), checknetloc_nfkc = (\<lambda>_. True)\<rparr>"

subsection \<open>int and str\<close>

definition isspace :: "char \<Rightarrow> bool" where
  \<comment> \<open>the white space that \<^verbatim>\<open>int\<close> strips, among the code points below 256: the six
      characters of ASCII, NEL and the no-break space\<close>
  "isspace c = ((of_char c :: nat) \<in> {9, 10, 11, 12, 13, 32, 133, 160})"

definition isdigit :: "char \<Rightarrow> bool" where
  "isdigit c = (c \<in> set ''0123456789'')"

definition digit_value :: "char \<Rightarrow> int" where
  "digit_value c = of_char c - 48"

fun digits :: "string \<Rightarrow> int \<Rightarrow> int option" where
  \<comment> \<open>the rest of a decimal literal after a digit; one underscore may separate two digits\<close>
  "digits [] acc = Some acc"
| "digits (c # cs) acc =
     (if isdigit c then digits cs (10 * acc + digit_value c)
      else if c = CHR ''_'' then
        (case cs of
           [] \<Rightarrow> None
         | d # ds \<Rightarrow> if isdigit d then digits ds (10 * acc + digit_value d) else None)
      else None)"

definition int_max_str_digits :: nat where
  \<comment> \<open>\<^verbatim>\<open>sys.int_info.default_max_str_digits\<close>; the program does not change the limit\<close>
  "int_max_str_digits = 4300"

definition int_of_str :: "string \<Rightarrow> error + int" where
  \<comment> \<open>\<^verbatim>\<open>int(s)\<close> for a string \<open>s\<close>; a literal of more digits than the limit is refused\<close>
  "int_of_str s =
     (let t = rev (dropWhile isspace (rev (dropWhile isspace s)));
          (sign, body) = (case t of
                            c # r \<Rightarrow> if c = CHR ''-'' then (- 1, r)
                                      else if c = CHR ''+'' then (1, r) else (1, t)
                          | [] \<Rightarrow> (1, t))
      in case body of
           [] \<Rightarrow> Inl ValueError
         | c # cs \<Rightarrow>
             if isdigit c
             then (case digits cs (digit_value c) of
                     None \<Rightarrow> Inl ValueError
                   | Some v \<Rightarrow>
                       if int_max_str_digits < length (filter isdigit body) then Inl ValueError
                       else Inr (sign * v))
             else Inl ValueError)"

function str_nat :: "nat \<Rightarrow> string" where
  "str_nat n = (if n < 10 then [''0123456789'' ! n]
                else str_nat (n div 10) @ [''0123456789'' ! (n mod 10)])"
  by pat_completeness auto
termination
  by (relation "measure id") auto

declare str_nat.simps [simp del]

definition str_int :: "int \<Rightarrow> string" where
  \<comment> \<open>\<^verbatim>\<open>str(i)\<close> for an integer \<open>i\<close> of at most \<open>int_max_str_digits\<close> digits, as are the
      numbers that \<open>int_of_str\<close> returns and those computed from the sizes of files\<close>
  "str_int i = (if i < 0 then ''-'' @ str_nat (nat (- i)) else str_nat (nat i))"

definition floordiv :: "int \<Rightarrow> int \<Rightarrow> error + int" where
  \<comment> \<open>\<^verbatim>\<open>a // b\<close>\<close>
  "floordiv a b = (if b = 0 then Inl ZeroDivisionError else Inr (a div b))"

subsection \<open>Effects: standard streams, processes, the recipe store\<close>

text \<open>
  What the program does to the outside is a trace of events, in the order of the calls.
  Files of the working directory appear in the trace only; the files that
  \<^verbatim>\<open>RECIPE.write_text\<close> writes are kept as a map from the file name inside \<^verbatim>\<open>RECIPES\<close> to
  the text. Standard input is the list of the lines still to be read; \<^verbatim>\<open>input\<close> at its
  end raises EOFError. Calls of the file system are taken to succeed.
\<close>

datatype path = Path string | Div path string

datatype event =
    Print string
  | Input string
  | Sleep nat
  | Connect string nat
  | Run "string list"
  | Mkdtemp string
  | Mkdir path
  | Urlopen string
  | Write_bytes path nat
  | Write_text path string
  | Extract string path
  | Unlink path
  | Rmdir path
  | Cleanup path

record state =
  stdin :: "string list"
  trace :: "event list"
  recipes :: "string \<rightharpoonup> string"

type_synonym 'a io = "state \<Rightarrow> (error + 'a) \<times> state"

definition return :: "'a \<Rightarrow> 'a io" where
  "return x s = (Inr x, s)"

definition raise :: "error \<Rightarrow> 'a io" where
  "raise e s = (Inl e, s)"

definition lift :: "error + 'a \<Rightarrow> 'a io" where
  \<comment> \<open>an expression without effect that may raise\<close>
  "lift r s = (r, s)"

definition bind_io :: "'a io \<Rightarrow> ('a \<Rightarrow> 'b io) \<Rightarrow> 'b io" where
  \<comment> \<open>one statement after another; an exception skips the rest\<close>
  "bind_io m f s = (case m s of (Inl e, s') \<Rightarrow> (Inl e, s') | (Inr x, s') \<Rightarrow> f x s')"

definition emit :: "event \<Rightarrow> unit io" where
  "emit ev s = (Inr (), s\<lparr>trace := trace s @ [ev]\<rparr>)"

definition print :: "string \<Rightarrow> unit io" where
  \<comment> \<open>the argument is the text written, with its end\<close>
  "print t = emit (Print t)"

definition input :: "string \<Rightarrow> string io" where
  "input prompt s =
     (case stdin s of
        [] \<Rightarrow> (Inl EOFError, s\<lparr>trace := trace s @ [Input prompt]\<rparr>)
      | l # ls \<Rightarrow> (Inr l, s\<lparr>stdin := ls, trace := trace s @ [Input prompt]\<rparr>))"

definition sleep :: "nat \<Rightarrow> unit io" where
  "sleep n = emit (Sleep n)"

definition subprocess_run :: "(string list \<Rightarrow> nat) \<Rightarrow> string list \<Rightarrow> unit io" where
  \<comment> \<open>\<^verbatim>\<open>subprocess.run(argv, check=True)\<close>; the first argument gives the exit status\<close>
  "subprocess_run status argv =
     bind_io (emit (Run argv))
       (\<lambda>_. if status argv = 0 then return () else raise CalledProcessError)"

definition exit_status :: "error + unit \<Rightarrow> nat" where
  \<comment> \<open>of the process, when \<^verbatim>\<open>main\<close> ends so: \<^verbatim>\<open>sys.exit()\<close> without argument is status 0,
      any other exception that nothing catches is status 1\<close>
  "exit_status r = (case r of Inr _ \<Rightarrow> 0 | Inl e \<Rightarrow> if e = SystemExit then 0 else 1)"

record args =
  dry_run :: "string list"
  tier3 :: string
  tmp_dir :: "string option"
  registry :: string
  deploy_token :: "string option"
  url :: string
  vmnetx_package :: "string option"

subsection \<open>stage2: wait for the deployment and start a VNC client\<close>

datatype probe = Raises error | Recv string

record desktop =
  connection :: "nat \<Rightarrow> probe"
  which :: "string \<Rightarrow> string option"
  viewer_status :: "string list \<Rightarrow> nat"

text \<open>
  \<open>connection d k\<close> is what the \<open>k\<close>-th attempt meets, counted from 0: an exception of
  \<^verbatim>\<open>create_connection\<close> or \<^verbatim>\<open>recv\<close>, or the bytes that the server has sent, of which
  \<^verbatim>\<open>recv(3)\<close> returns the first three. The loop has no bound: \<open>poll\<close> is a partial function,
  and \<open>None\<close> means that it never returns.
\<close>

definition not_ready :: "error \<Rightarrow> bool" where
  \<comment> \<open>the exceptions that the loop catches\<close>
  "not_ready e = (e = Gaierror \<or> e = ConnectionRefusedError \<or> e = SocketTimeout)"

definition attempt :: "state \<Rightarrow> state" where
  "attempt s = s\<lparr>trace := trace s @ [Print ''.'', Connect ''vmi-vnc'' 5900]\<rparr>"

definition retry :: "state \<Rightarrow> state" where
  "retry s = s\<lparr>trace := trace s @ [Print ''.'', Connect ''vmi-vnc'' 5900, Sleep 1]\<rparr>"

partial_function (option) poll :: "(nat \<Rightarrow> probe) \<Rightarrow> nat \<Rightarrow> state \<Rightarrow> ((error + unit) \<times> state) option" where
  "poll net k s =
     (case net k of
        Recv handshake \<Rightarrow>
          if startswith (take 3 handshake) ''RFB'' then Some (Inr (), attempt s)
          else poll net (Suc k) (retry s)
      | Raises e \<Rightarrow>
          if not_ready e then poll net (Suc k) (retry s)
          else Some (Inl e, attempt s))"

declare poll.simps [code]

definition start_viewer :: "desktop \<Rightarrow> args \<Rightarrow> unit io" where
  \<comment> \<open>lines 83 to 97\<close>
  "start_viewer d a =
     (case which d ''remote-viewer'' of
        Some viewer \<Rightarrow> subprocess_run (viewer_status d) (dry_run a @ [viewer, ''vnc://vmi-vnc:5900''])
      | None \<Rightarrow>
          (case which d ''gvncviewer'' of
             Some viewer \<Rightarrow> subprocess_run (viewer_status d) (dry_run a @ [viewer, ''vmi-vnc:0''])
           | None \<Rightarrow>
               (case which d ''vncviewer'' of
                  Some viewer \<Rightarrow> subprocess_run (viewer_status d) (dry_run a @ [viewer, ''vmi-vnc:0''])
                | None \<Rightarrow>
                    bind_io (print (''Failed to find a local vnc-viewer candidate'' @ nl))
                      (\<lambda>_. sleep 10))))"

definition stage2 :: "desktop \<Rightarrow> args \<Rightarrow> state \<Rightarrow> ((error + unit) \<times> state) option" where
  "stage2 d a s =
     (case poll (connection d) 0
             (s\<lparr>trace := trace s @ [Print ''Waiting for VNC server to become available'']\<rparr>) of
        None \<Rightarrow> None
      | Some (Inl e, s') \<Rightarrow> Some (Inl e, s')
      | Some (Inr _, s') \<Rightarrow> Some (bind_io (print nl) (\<lambda>_. start_viewer d a) s'))"

subsection \<open>convert: what the program reads\<close>

text \<open>
  An XML document as \<^verbatim>\<open>ElementTree\<close> gives it to the program: the attributes of the root
  element and, for each child element in document order, its tag and its text.
\<close>

record element =
  attrib :: "(string \<times> string) list"
  children :: "(string \<times> string option) list"

datatype xml = Malformed | Document element

record archive =
  vmnetx_package_xml :: "xml option"
  domain_xml :: "xml option"
  disk_img :: "nat option"

record response =
  content_length :: "string option"
  chunks :: "nat list"

record world =
  checks :: stdlib
  mkdtemp :: string
  resolve :: "path \<Rightarrow> string"
  urlopen :: "string \<Rightarrow> error + response"
  zipfile :: "error + archive"
  disk_qcow_size :: nat
  status :: "string list \<Rightarrow> nat"

text \<open>
  \<open>zipfile\<close> is the archive that \<^verbatim>\<open>ZipFile(VMNETX_PACKAGE)\<close> opens, with the size of its
  member \<^verbatim>\<open>disk.img\<close>; \<open>disk_qcow_size\<close> is the size of the file that \<^verbatim>\<open>qemu-img\<close> leaves;
  \<open>status\<close> is the exit status of an external command; \<open>mkdtemp\<close> is the directory that
  \<^verbatim>\<open>TemporaryDirectory\<close> creates.
\<close>

definition XML :: "xml option \<Rightarrow> error + element" where
  \<comment> \<open>\<^verbatim>\<open>et.XML(z.read(name))\<close>: KeyError for a missing member\<close>
  "XML member = (case member of
                   None \<Rightarrow> Inl KeyError
                 | Some Malformed \<Rightarrow> Inl ParseError
                 | Some (Document e) \<Rightarrow> Inr e)"

definition getitem :: "(string \<times> string) list \<Rightarrow> string \<Rightarrow> error + string" where
  "getitem d k = (case map_of d k of None \<Rightarrow> Inl KeyError | Some v \<Rightarrow> Inr v)"

definition findtext :: "element \<Rightarrow> string \<Rightarrow> string \<Rightarrow> string" where
  \<comment> \<open>the text of the first child with the tag, \<^verbatim>\<open>""\<close> if it has none; else the default\<close>
  "findtext e tag dflt =
     (case map_of (children e) tag of
        None \<Rightarrow> dflt
      | Some text \<Rightarrow> (case text of None \<Rightarrow> [] | Some t \<Rightarrow> t))"

subsection \<open>convert: the stages\<close>

function name_loop :: "string \<Rightarrow> string io" where
  \<comment> \<open>lines 148 and 149\<close>
  "name_loop vmi_fullname s =
     (if vmi_fullname \<in> set ['''', ''Virtual Machine'']
      then (case input ''VM image name: '' s of
              (Inl e, s') \<Rightarrow> (Inl e, s')
            | (Inr answer, s') \<Rightarrow> name_loop answer s')
      else (Inr vmi_fullname, s))"
  by pat_completeness auto
termination
  by (relation "measure (\<lambda>(n, s). length (stdin s))")
     (auto simp: input_def split: list.splits)

declare name_loop.simps [simp del]

definition sizing :: "element \<Rightarrow> error + (int \<times> int)" where
  \<comment> \<open>lines 153 and 154: the number of CPUs, and the memory in the unit of the recipe\<close>
  "sizing domain =
     (case int_of_str (findtext domain ''vcpu'' ''1'') of
        Inl e \<Rightarrow> Inl e
      | Inr cpus \<Rightarrow>
          (case int_of_str (findtext domain ''memory'' ''65536'') of
             Inl e \<Rightarrow> Inl e
           | Inr m \<Rightarrow> Inr (cpus, m div 1024)))"

definition compression :: "int \<Rightarrow> int \<Rightarrow> error + int" where
  \<comment> \<open>line 179, from the sizes of \<^verbatim>\<open>disk.img\<close> and of \<^verbatim>\<open>disk.qcow2\<close>\<close>
  "compression img_size qcow_size =
     (case floordiv (100 * qcow_size) img_size of
        Inl e \<Rightarrow> Inl e
      | Inr q \<Rightarrow> Inr (100 - q))"

definition compression_report :: "int \<Rightarrow> unit io" where
  \<comment> \<open>lines 180 and 181\<close>
  "compression_report c =
     (if c \<noteq> 0 then print (''compression savings '' @ str_int c @ ''%'' @ nl) else return ())"

fun copy_loop :: "path \<Rightarrow> int \<Rightarrow> nat list \<Rightarrow> int \<Rightarrow> unit io" where
  \<comment> \<open>lines 132 to 139; an empty read ends the loop\<close>
  "copy_loop dst total_size [] copied = return ()"
| "copy_loop dst total_size (n # ns) copied =
     (if n = 0 then return ()
      else bind_io (emit (Write_bytes dst n)) (\<lambda>_.
           bind_io (lift (floordiv (100 * (copied + int n)) total_size)) (\<lambda>pct.
           bind_io (print ([CHR 0x0D, CHR 0x09] @ str_int pct @ ''%'')) (\<lambda>_.
           copy_loop dst total_size ns (copied + int n)))))"

definition fetch :: "world \<Rightarrow> args \<Rightarrow> path \<Rightarrow> unit io" where
  \<comment> \<open>lines 126 to 140\<close>
  "fetch w a VMNETX_PACKAGE =
     bind_io (lift (urlparse (checks w) (url a))) (\<lambda>(schema, netloc, path, params, query, fragment).
     bind_io (print (''Fetching ''
                @ urlunparse ''https'' netloc path (Some params) (Some query) (Some fragment) @ nl)) (\<lambda>_.
     bind_io (emit (Urlopen
                (urlunparse ''https'' netloc path (Some params) (Some query) (Some fragment)))) (\<lambda>_.
     bind_io (lift (urlopen w
                (urlunparse ''https'' netloc path (Some params) (Some query) (Some fragment)))) (\<lambda>src.
     bind_io (emit (Write_bytes VMNETX_PACKAGE 0)) (\<lambda>_.
     bind_io (lift (case content_length src of
                      None \<Rightarrow> Inl TypeError
                    | Some h \<Rightarrow> int_of_str h)) (\<lambda>total_size.
     bind_io (copy_loop VMNETX_PACKAGE total_size (chunks src) 0) (\<lambda>_.
     print nl)))))))"

definition inspect :: "world \<Rightarrow> path \<Rightarrow> (string \<times> int \<times> int \<times> nat) io" where
  \<comment> \<open>lines 145 to 159: the name, the sizing and the size of the extracted disk image\<close>
  "inspect w tmpdir =
     bind_io (lift (zipfile w)) (\<lambda>z.
     bind_io (lift (XML (vmnetx_package_xml z))) (\<lambda>package_description.
     bind_io (lift (getitem (attrib package_description) ''name'')) (\<lambda>name.
     bind_io (name_loop name) (\<lambda>vmi_fullname.
     bind_io (print (vmi_fullname @ nl)) (\<lambda>_.
     bind_io (lift (XML (domain_xml z))) (\<lambda>domain.
     bind_io (lift (sizing domain)) (\<lambda>(cpus, memory).
     bind_io (print (''cpus '' @ str_int cpus @ '' memory '' @ str_int memory @ nl)) (\<lambda>_.
     bind_io (print (''Extracting disk image'' @ nl)) (\<lambda>_.
     bind_io (lift (case disk_img z of None \<Rightarrow> Inl KeyError | Some n \<Rightarrow> Inr n)) (\<lambda>img_size.
     bind_io (emit (Extract ''disk.img'' tmpdir)) (\<lambda>_.
     return (vmi_fullname, cpus, memory, img_size))))))))))))"

definition encode :: "world \<Rightarrow> args \<Rightarrow> path \<Rightarrow> nat \<Rightarrow> unit io" where
  \<comment> \<open>lines 165 to 184\<close>
  "encode w a tmpdir img_size =
     bind_io (print (''Recompressing disk image'' @ nl)) (\<lambda>_.
     bind_io (subprocess_run (status w)
                [''qemu-img'', ''convert'', ''-c'', ''-p'', ''-O'', ''qcow2'',
                 resolve w (Div tmpdir ''disk.img''), resolve w (Div tmpdir ''disk.qcow2'')]) (\<lambda>_.
     bind_io (lift (compression (int img_size) (int (disk_qcow_size w)))) (\<lambda>c.
     bind_io (compression_report c) (\<lambda>_.
     if tmp_dir a = None then emit (Unlink (Div tmpdir ''disk.img'')) else return ()))))"

definition DOCKER_TAG :: "args \<Rightarrow> UUID \<Rightarrow> string" where
  "DOCKER_TAG a sinfonia_uuid = registry a @ ''/'' @ str_uuid sinfonia_uuid @ '':latest''"

definition dockerignore_text :: string where
  "dockerignore_text = ''*'' @ nl @ ''!Dockerfile'' @ nl @ ''!*.qcow2'' @ nl"

definition dockerfile_text :: "string \<Rightarrow> string" where
  \<open>dockerfile_text vmi_fullname =
     ''FROM scratch'' @ nl
     @ ''LABEL org.opencontainers.image.url="https://olivearchive.org" ''
     @ ''      org.opencontainers.image.title="'' @ vmi_fullname @ ''"'' @ nl
     @ ''ADD --chown=107:107 disk.qcow2 /disk/'' @ nl\<close>

definition build :: "world \<Rightarrow> args \<Rightarrow> path \<Rightarrow> UUID \<Rightarrow> string \<Rightarrow> unit io" where
  \<comment> \<open>lines 187 to 207\<close>
  "build w a tmpdir sinfonia_uuid vmi_fullname =
     bind_io (print (''Creating containerDisk image'' @ nl)) (\<lambda>_.
     bind_io (emit (Write_text (Div tmpdir ''.dockerignore'') dockerignore_text)) (\<lambda>_.
     bind_io (emit (Write_text (Div tmpdir ''Dockerfile'') (dockerfile_text vmi_fullname))) (\<lambda>_.
     subprocess_run (status w)
       [''docker'', ''build'', ''-t'', DOCKER_TAG a sinfonia_uuid, resolve w tmpdir])))"

definition publish :: "world \<Rightarrow> args \<Rightarrow> path \<Rightarrow> UUID \<Rightarrow> unit io" where
  \<comment> \<open>lines 209 to 227\<close>
  "publish w a tmpdir sinfonia_uuid =
     (if tmp_dir a = None then
        bind_io (emit (Unlink (Div tmpdir ''.dockerignore''))) (\<lambda>_.
        bind_io (emit (Unlink (Div tmpdir ''Dockerfile''))) (\<lambda>_.
        bind_io (emit (Unlink (Div tmpdir ''disk.qcow2''))) (\<lambda>_.
        bind_io (emit (Rmdir tmpdir)) (\<lambda>_.
        bind_io (if deploy_token a = None
                 then bind_io (input ''Ok to push non-restricted image? [yes/no] '') (\<lambda>answer.
                        if \<not> startswith (str_lower answer) ''yes'' then raise SystemExit
                        else return ())
                 else return ()) (\<lambda>_.
        bind_io (print (''Publishing containerDisk image'' @ nl)) (\<lambda>_.
        bind_io (subprocess_run (status w) [''docker'', ''push'', DOCKER_TAG a sinfonia_uuid]) (\<lambda>_.
        subprocess_run (status w) [''docker'', ''image'', ''rm'', DOCKER_TAG a sinfonia_uuid])))))))
      else return ())"

definition temporary_directory :: "world \<Rightarrow> args \<Rightarrow> string" where
  "temporary_directory w a = (case tmp_dir a of Some d \<Rightarrow> d | None \<Rightarrow> mkdtemp w)"

definition prepare :: "world \<Rightarrow> args \<Rightarrow> (UUID \<times> string \<times> int \<times> int) io" where
  \<comment> \<open>lines 119 to 207: from the working directory to the built container image\<close>
  "prepare w a =
     bind_io (emit (Mkdir (Path (temporary_directory w a)))) (\<lambda>_.
     bind_io (lift (vmnetx_url_to_uuid (checks w) (url a))) (\<lambda>sinfonia_uuid.
     bind_io (print (''UUID: '' @ str_uuid sinfonia_uuid @ nl)) (\<lambda>_.
     bind_io (if vmnetx_package a = None
              then fetch w a (Div (Path (temporary_directory w a)) ''vmnetx-package.zip'')
              else return ()) (\<lambda>_.
     bind_io (inspect w (Path (temporary_directory w a))) (\<lambda>(vmi_fullname, cpus, memory, img_size).
     bind_io (if tmp_dir a = None \<and> vmnetx_package a = None
              then emit (Unlink (Div (Path (temporary_directory w a)) ''vmnetx-package.zip''))
              else return ()) (\<lambda>_.
     bind_io (encode w a (Path (temporary_directory w a)) img_size) (\<lambda>_.
     bind_io (build w a (Path (temporary_directory w a)) sinfonia_uuid vmi_fullname) (\<lambda>_.
     return (sinfonia_uuid, vmi_fullname, cpus, memory)))))))))"

definition with_block :: "world \<Rightarrow> args \<Rightarrow> (UUID \<times> string \<times> int \<times> int) io" where
  \<comment> \<open>lines 112 to 227, the body of \<^verbatim>\<open>with tmp_ctx\<close>\<close>
  "with_block w a =
     bind_io (prepare w a) (\<lambda>(sinfonia_uuid, vmi_fullname, cpus, memory).
     bind_io (publish w a (Path (temporary_directory w a)) sinfonia_uuid) (\<lambda>_.
     return (sinfonia_uuid, vmi_fullname, cpus, memory)))"

definition with_tmp_ctx :: "world \<Rightarrow> args \<Rightarrow> 'a io \<Rightarrow> 'a io" where
  \<comment> \<open>lines 106 to 111: \<^verbatim>\<open>TemporaryDirectory\<close> creates a directory and removes it with what it
      holds when the block is left, also by an exception; \<^verbatim>\<open>nullcontext\<close> does nothing\<close>
  "with_tmp_ctx w a body s =
     (if tmp_dir a = None
      then (case body (s\<lparr>trace := trace s @ [Mkdtemp (mkdtemp w)]\<rparr>) of
              (r, s') \<Rightarrow> (r, s'\<lparr>trace := trace s' @ [Cleanup (Path (mkdtemp w))]\<rparr>))
      else body s)"

definition credentials :: "args \<Rightarrow> error + string" where
  \<comment> \<open>lines 232 to 243, the access-control block of the recipe\<close>
  \<open>credentials a =
     (case deploy_token a of
        Some token \<Rightarrow>
          (case unpack2 (str_split1 (registry a) CHR ''/'') of
             Inl e \<Rightarrow> Inl e
           | Inr (registry_host, rest) \<Rightarrow>
               (case unpack2 (str_split1 token CHR '':'') of
                  Inl e \<Rightarrow> Inl e
                | Inr (username, password) \<Rightarrow>
                    Inr (''  containerDiskCredentials:'' @ nl
                         @ ''    registry: "'' @ registry_host @ ''"'' @ nl
                         @ ''    username: "'' @ username @ ''"'' @ nl
                         @ ''    password: "'' @ password @ ''"'' @ nl
                         @ ''  restricted: true'' @ nl)))
      | None \<Rightarrow> Inr ''  restricted: false'')\<close>

definition recipe_values :: "string \<Rightarrow> UUID \<Rightarrow> string \<Rightarrow> int \<Rightarrow> int \<Rightarrow> string" where
  \<comment> \<open>lines 248 to 263, the recipe before its access-control block\<close>
  \<open>recipe_values repository sinfonia_uuid vmi_fullname cpus memory =
     ''description: "'' @ vmi_fullname @ ''"'' @ nl
     @ ''chart: https://cmusatyalab.github.io/olive2022/vmi'' @ nl
     @ ''version: 0.1.2'' @ nl
     @ ''values:'' @ nl
     @ ''  containerDisk:'' @ nl
     @ ''    repository: "'' @ repository @ ''"'' @ nl
     @ ''    name: "'' @ str_uuid sinfonia_uuid @ ''"'' @ nl
     @ ''    bus: sata'' @ nl
     @ ''  resources:'' @ nl
     @ ''    requests:'' @ nl
     @ ''      cpu: '' @ str_int cpus @ nl
     @ ''      memory: '' @ str_int memory @ ''Mi'' @ nl
     @ ''  virtvnc:'' @ nl
     @ ''    fullnameOverride: vmi'' @ nl\<close>

definition with_suffix :: "string \<Rightarrow> string \<Rightarrow> string" where
  \<comment> \<open>\<^verbatim>\<open>PurePath.with_suffix\<close> on the last component of a path: the old suffix starts at
      the last dot, unless that dot is the first or the last character\<close>
  "with_suffix name suffix =
     (case str_rfind name CHR ''.'' of
        Some i \<Rightarrow> if 0 < i \<and> i < length name - 1 then take i name @ suffix else name @ suffix
      | None \<Rightarrow> name @ suffix)"

definition write_recipe :: "string \<Rightarrow> string \<Rightarrow> unit io" where
  \<comment> \<open>lines 246 and 247: the file in the directory \<^verbatim>\<open>RECIPES\<close> is created or overwritten\<close>
  "write_recipe name text s =
     (Inr (), s\<lparr>trace := trace s @ [Mkdir (Path ''RECIPES''), Write_text (Div (Path ''RECIPES'') name) text],
                recipes := (recipes s)(name \<mapsto> text)\<rparr>)"

definition emit_recipe :: "args \<Rightarrow> UUID \<times> string \<times> int \<times> int \<Rightarrow> unit io" where
  \<comment> \<open>lines 230 to 266\<close>
  "emit_recipe a = (\<lambda>(sinfonia_uuid, vmi_fullname, cpus, memory).
     bind_io (print (''Creating Sinfonia recipe '' @ str_uuid sinfonia_uuid @ nl)) (\<lambda>_.
     bind_io (lift (credentials a)) (\<lambda>cred.
     bind_io (write_recipe (with_suffix (str_uuid sinfonia_uuid) ''.yaml'')
                (recipe_values (registry a) sinfonia_uuid vmi_fullname cpus memory @ cred)) (\<lambda>_.
     bind_io (input (''Done, hit return to quit'' @ nl)) (\<lambda>_. return ())))))"

definition convert :: "world \<Rightarrow> args \<Rightarrow> unit io" where
  "convert w a =
     (if dry_run a \<noteq> [] then raise AssertionError
      else bind_io (with_tmp_ctx w a (with_block w a)) (emit_recipe a))"

subsection \<open>Notions used by the properties\<close>

definition appends :: "(event \<Rightarrow> bool) \<Rightarrow> 'a io \<Rightarrow> bool" where
  \<comment> \<open>the computation leaves the recipe store as it is and
      adds to the trace only events that satisfy \<open>P\<close>\<close>
  "appends P m =
     (\<forall>s. recipes (snd (m s)) = recipes s
          \<and> (\<exists>evs. trace (snd (m s)) = trace s @ evs \<and> (\<forall>ev \<in> set evs. P ev)))"

definition placeholder :: "string \<Rightarrow> bool" where
  \<comment> \<open>the names that line 148 does not accept\<close>
  "placeholder n = (n = [] \<or> n = ''Virtual Machine'')"

definition publishes_or_deletes :: "event \<Rightarrow> bool" where
  \<comment> \<open>the push-confirmation prompt, a \<^verbatim>\<open>docker push\<close> or \<^verbatim>\<open>docker image rm\<close>, and every
      removal of a file or directory\<close>
  "publishes_or_deletes ev =
     (case ev of
        Input prompt \<Rightarrow> prompt = ''Ok to push non-restricted image? [yes/no] ''
      | Run argv \<Rightarrow> take 2 argv = [''docker'', ''push''] \<or> take 3 argv = [''docker'', ''image'', ''rm'']
      | Unlink p \<Rightarrow> True
      | Rmdir p \<Rightarrow> True
      | Cleanup p \<Rightarrow> True
      | _ \<Rightarrow> False)"

definition spec_compression :: "int \<Rightarrow> int \<Rightarrow> int" where
  \<comment> \<open>Modelled from the spec: the savings \<open>100 - 100 * post / pre\<close> in exact arithmetic, that
      is \<open>(100 * pre - 100 * post) / pre\<close>, as an integer truncated toward zero\<close>
  "spec_compression pre post = (100 * pre - 100 * post) sdiv pre"

subsection \<open>A package and a host to run the program on\<close>

definition example_archive :: archive where
  "example_archive =
     \<lparr>vmnetx_package_xml = Some (Document \<lparr>attrib = [(''name'', ''Windows 3.1'')], children = []\<rparr>),
      domain_xml = Some (Document \<lparr>attrib = [(''type'', ''kvm'')],
                                   children = [(''name'', Some ''machine''), (''memory'', Some ''131072''),
                                               (''vcpu'', Some ''2'')]\<rparr>),
      disk_img = Some 1000\<rparr>"

definition example_world :: world where
  "example_world =
     \<lparr>checks = accepting, mkdtemp = ''/var/tmp/tmpk3v9'', resolve = (\<lambda>p. ''/abs''),
      urlopen = (\<lambda>u. Inl URLError), zipfile = Inr example_archive,
      disk_qcow_size = 400, status = (\<lambda>argv. 0)\<rparr>"

definition example_args :: args where
  "example_args =
     \<lparr>dry_run = [], tier3 = ''sinfonia-tier3'', tmp_dir = None,
      registry = ''reg.example.com/proj'', deploy_token = None,
      url = ''vmnetx://olivearchive.org/vm/win31'', vmnetx_package = Some ''win31.nxpk''\<rparr>"

definition example_state :: "string list \<Rightarrow> state" where
  \<comment> \<open>before the program starts, with the lines that the operator will type\<close>
  "example_state answers = \<lparr>stdin = answers, trace = [], recipes = Map.empty\<rparr>"

definition waiting :: "probe \<Rightarrow> bool" where
  \<comment> \<open>what an attempt meets when the loop of \<open>stage2\<close> sleeps and tries again\<close>
  "waiting p = (case p of Raises e \<Rightarrow> not_ready e | Recv h \<Rightarrow> \<not> startswith (take 3 h) ''RFB'')"

definition example_desktop :: "(nat \<Rightarrow> probe) \<Rightarrow> desktop" where
  \<comment> \<open>a host where \<^verbatim>\<open>vncviewer\<close> is the only client installed\<close>
  "example_desktop net =
     \<lparr>connection = net,
      which = (\<lambda>n. if n = ''vncviewer'' then Some ''/usr/bin/vncviewer'' else None),
      viewer_status = (\<lambda>argv. 0)\<rparr>"

definition example_uuid :: UUID where
  \<comment> \<open>the identity of the locator of \<open>example_args\<close>\<close>
  "example_uuid = uuid5 NAMESPACE_OLIVEARCHIVE ''vmnetx+https://olivearchive.org/vm/win31''"

section \<open>Properties\<close>

subsection \<open>Evaluation rules\<close>

lemma funpow_numeral: "(f ^^ numeral k) x = f ((f ^^ pred_numeral k) x)"
  by (simp add: numeral_eq_Suc)

lemma replicate_numeral: "replicate (numeral k) x = x # replicate (pred_numeral k) x"
  by (simp add: numeral_eq_Suc)

lemmas str_eval = str_find_def str_find_from_def str_rfind_def str_split1_def unpack2_def
  startswith_def lower_char_def str_lower_def isascii_def isalpha_def

lemmas urlparse_eval = uses_netloc_def uses_params_def scheme_chars_def C0_CONTROL_OR_SPACE_def
  UNSAFE_URL_BYTES_TO_REMOVE_def splitnetloc_def split_scheme_def netloc_brackets_ok_def
  checknetloc_def split_fragment_def split_query_def urlsplit_def splitparams_def urlparse_def
  or_empty_def urlunsplit_def urlunparse_def canonical_url_def

text \<open>
  Evaluating SHA-1 with the simplifier: sums and left shifts of numerals are cut back to
  32 bits after every round, which changes no value of type \<open>u32\<close>.
\<close>

lemma mask32: "(x :: u32) AND 0xFFFFFFFF = x"
proof -
  have m: "(0xFFFFFFFF :: u32) = - 1" by simp
  show ?thesis unfolding m by simp
qed

lemma sha1_round_eval:
  "sha1_round f k (w, a, b, c, d, e) =
     (schedule w, (rotl32 5 a + f b c d + e + k + hd w) AND 0xFFFFFFFF, a, rotl32 30 b, c, d)"
  by (simp only: sha1_round.simps mask32)

lemma rotl32_eval: "rotl32 n w = (push_bit n w AND 0xFFFFFFFF) OR drop_bit (32 - n) w"
  by (simp only: rotl32_def mask32)

lemma Ch_eval: "Ch b c d = (b AND c) OR ((NOT b AND 0xFFFFFFFF) AND d)"
  by (simp only: Ch_def mask32)

lemmas sha1_eval = sha1_def sha1_pad_def be_bytes64_def be_bytes32_def replicate_numeral
  blocks16.simps schedule_def rotl32_eval Ch_eval Parity_def Maj_def funpow_numeral
  sha1_round_eval

lemmas uuid5_eval = utf8_def uuid_bytes_def int_from_bytes_def UUID_version_def uuid5_def
  NAMESPACE_OLIVEARCHIVE_def

text \<open>
  The two standard test vectors of SHA-1, the empty message and \<^verbatim>\<open>abc\<close>, with the digest
  read as one number of 160 bits.
\<close>

lemma sha1_empty:
  "foldl (\<lambda>acc b. push_bit 8 acc OR ucast b) (0 :: 160 word) (sha1 [])
     = 0xda39a3ee5e6b4b0d3255bfef95601890afd80709"
  by (simp add: sha1_eval)

lemma sha1_abc:
  "foldl (\<lambda>acc b. push_bit 8 acc OR ucast b) (0 :: 160 word) (sha1 [0x61, 0x62, 0x63])
     = 0xa9993e364706816aba3e25717850c26c9cd0d89d"
  by (simp add: sha1_eval)

subsection \<open>Identity derivation\<close>

lemma min_length_takeWhile:
  "min (length (takeWhile P xs)) (length (takeWhile Q xs)) = length (takeWhile (\<lambda>x. P x \<and> Q x) xs)"
  by (induction xs) auto

lemma find_or_length:
  "(case str_find xs c of Some w \<Rightarrow> min d (start + w) | None \<Rightarrow> d) =
     (if c \<in> set xs then min d (start + length (takeWhile (\<lambda>x. x \<noteq> c) xs)) else d)"
  by (simp add: str_find_def)

lemma length_takeWhile_notin:
  "c \<notin> set xs \<Longrightarrow> length (takeWhile (\<lambda>x. x \<noteq> c) xs) = length xs"
  by (induction xs) auto

lemma splitnetloc_delim:
  assumes "start \<le> length ul"
  shows "foldl (\<lambda>delim c. case str_find_from ul c start of
                                      Some wdelim \<Rightarrow> min delim wdelim
                                    | None \<Rightarrow> delim)
                        (length ul) ''/?#'' = start + length (takeWhile (\<lambda>c. \<not> netloc_delim c) (drop start ul))"
proof -
  define xs where "xs = drop start ul"
  define l where "l c = length (takeWhile (\<lambda>x. x \<noteq> c) xs)" for c
  have len: "length ul = start + length xs" using assms by (simp add: xs_def)
  have l_le: "l c \<le> length xs" for c by (simp add: l_def length_takeWhile_le)
  have step: "(case str_find_from ul c start of Some w \<Rightarrow> min d w | None \<Rightarrow> d)
      = start + min k (l c)" if "d = start + k" "k \<le> length xs" for d c k
    using that by (auto simp: str_find_from_def str_find_def xs_def[symmetric] l_def
        length_takeWhile_notin min_def)
  have s1: "(case str_find_from ul CHR ''/'' start of Some w \<Rightarrow> min (length ul) w | None \<Rightarrow> length ul)
      = start + min (length xs) (l CHR ''/'')"
    by (rule step) (simp_all add: len)
  have s2: "(case str_find_from ul CHR ''?'' start of Some w \<Rightarrow> min (start + min (length xs) (l CHR ''/'')) w
       | None \<Rightarrow> start + min (length xs) (l CHR ''/''))
      = start + min (min (length xs) (l CHR ''/'')) (l CHR ''?'')"
    by (rule step) simp_all
  have s3: "(case str_find_from ul CHR ''#'' start of Some w \<Rightarrow> min (start + min (min (length xs) (l CHR ''/'')) (l CHR ''?'')) w
       | None \<Rightarrow> start + min (min (length xs) (l CHR ''/'')) (l CHR ''?''))
      = start + min (min (min (length xs) (l CHR ''/'')) (l CHR ''?'')) (l CHR ''#'')"
    by (rule step) simp_all
  have "foldl (\<lambda>delim c. case str_find_from ul c start of
                                      Some wdelim \<Rightarrow> min delim wdelim
                                    | None \<Rightarrow> delim)
                        (length ul) ''/?#''
     = start + min (min (min (length xs) (l CHR ''/'')) (l CHR ''?'')) (l CHR ''#'')"
    by (simp only: foldl_Cons foldl_Nil s1 s2 s3)
  also have "\<dots> = start + min (min (l CHR ''/'') (l CHR ''?'')) (l CHR ''#'')"
    using l_le[of "CHR ''/''"] by (simp add: min_absorb2)
  also have "\<dots> = start + length (takeWhile (\<lambda>x. (x \<noteq> CHR ''/'' \<and> x \<noteq> CHR ''?'') \<and> x \<noteq> CHR ''#'') xs)"
    unfolding l_def min_length_takeWhile ..
  finally show ?thesis by (simp add: netloc_delim_def xs_def conj_assoc)
qed

lemma splitnetloc_eq:
  assumes "start \<le> length ul"
  shows "splitnetloc ul start =
    (takeWhile (\<lambda>c. \<not> netloc_delim c) (drop start ul), dropWhile (\<lambda>c. \<not> netloc_delim c) (drop start ul))"
proof -
  let ?xs = "drop start ul" and ?P = "\<lambda>c. \<not> netloc_delim c"
  have a: "drop start (take (start + length (takeWhile ?P ?xs)) ul) = takeWhile ?P ?xs"
    by (simp add: drop_take takeWhile_eq_take[symmetric])
  have b: "drop (start + length (takeWhile ?P ?xs)) ul = dropWhile ?P ?xs"
    by (simp add: dropWhile_eq_drop add.commute)
  show ?thesis
    unfolding splitnetloc_def splitnetloc_delim[OF assms] Let_def a b ..
qed

lemma scheme_char_facts:
  assumes "c \<in> set scheme_chars"
  shows "c \<noteq> CHR '':''" "c \<notin> set UNSAFE_URL_BYTES_TO_REMOVE"
  using assms by (auto simp: scheme_chars_def UNSAFE_URL_BYTES_TO_REMOVE_def)

lemma isalpha_not_C0: "isalpha c \<Longrightarrow> \<not> C0_CONTROL_OR_SPACE c"
  by (auto simp: isalpha_def C0_CONTROL_OR_SPACE_def)

lemma split_scheme_locator:
  assumes "is_scheme s"
  shows "split_scheme (s @ '':'' @ r) = (str_lower s, r)"
proof -
  have no_colon: "\<forall>c \<in> set s. c \<noteq> CHR '':''"
    using assms scheme_char_facts(1) by (auto simp: is_scheme_def)
  then have tw: "takeWhile (\<lambda>x. x \<noteq> CHR '':'') (s @ '':'' @ r) = s"
    by (simp add: takeWhile_tail)
  have hd: "hd (s @ '':'' @ r) = hd s" using assms by (simp add: is_scheme_def)
  have "str_find (s @ '':'' @ r) CHR '':'' = Some (length s)"
    unfolding str_find_def tw by simp
  then show ?thesis
    using assms by (simp add: split_scheme_def hd is_scheme_def)
qed

lemma path_of_locator:
  assumes "CHR ''?'' \<notin> set p" "CHR ''#'' \<notin> set p" "t = [] \<or> hd t = CHR ''?'' \<or> hd t = CHR ''#''"
  shows "fst (split_query (fst (split_fragment (p @ t)))) = p"
proof (cases t)
  case Nil
  then show ?thesis using assms by (simp add: split_query_def split_fragment_def)
next
  case (Cons c r)
  then have c: "c = CHR ''?'' \<or> c = CHR ''#''" using assms(3) by simp
  have twq: "takeWhile (\<lambda>x. x \<noteq> CHR ''?'') (p @ CHR ''?'' # ys) = p" for ys
    using assms(1) by (auto simp: takeWhile_tail)
  have twf: "takeWhile (\<lambda>x. x \<noteq> CHR ''#'') (p @ CHR ''#'' # ys) = p" for ys
    using assms(2) by (auto simp: takeWhile_tail)
  have twf2: "takeWhile (\<lambda>x. x \<noteq> CHR ''#'') (p @ CHR ''?'' # ys) = p @ CHR ''?'' # takeWhile (\<lambda>x. x \<noteq> CHR ''#'') ys" for ys
    using assms(2) by (subst takeWhile_append2) auto
  from c show ?thesis
  proof
    assume "c = CHR ''?''"
    then show ?thesis using Cons assms(1,2)
      by (auto simp: split_query_def split_fragment_def twq twf2 simp del: takeWhile_append2)
  next
    assume "c = CHR ''#''"
    then show ?thesis using Cons assms(1,2)
      by (auto simp: split_query_def split_fragment_def twf)
  qed
qed

lemma netloc_of_locator:
  assumes "\<forall>c \<in> set n. \<not> netloc_delim c" "r = [] \<or> netloc_delim (hd r)"
  shows "splitnetloc (''//'' @ n @ r) 2 = (n, r)"
proof -
  have tw: "takeWhile (\<lambda>c. \<not> netloc_delim c) (n @ r) = n"
    using assms by (cases r) (simp_all add: takeWhile_tail)
  have dw: "dropWhile (\<lambda>c. \<not> netloc_delim c) (n @ r) = r"
    using assms by (cases r) (simp_all add: dropWhile_append2)
  show ?thesis
    by (subst splitnetloc_eq) (simp_all add: tw dw)
qed

lemma urlsplit_locator:
  assumes "is_scheme s" and "\<forall>c \<in> set n. \<not> netloc_delim c"
    and "p = [] \<or> hd p = CHR ''/''" and "CHR ''?'' \<notin> set p" and "CHR ''#'' \<notin> set p"
    and "t = [] \<or> hd t = CHR ''?'' \<or> hd t = CHR ''#''"
  shows "\<exists>q f. urlsplit lib (s @ ''://'' @ n @ p @ t) =
           (if netloc_brackets_ok lib (clean n) \<and> checknetloc lib (clean n)
            then Inr (str_lower s, clean n, clean p, q, f) else Inl ValueError)"
proof -
  have s_ne: "s \<noteq> []" and s_alpha: "isalpha (hd s)" and s_chars: "\<forall>c \<in> set s. c \<in> set scheme_chars"
    using assms(1) by (simp_all add: is_scheme_def)
  have lstrip: "dropWhile C0_CONTROL_OR_SPACE (s @ ''://'' @ n @ p @ t) = s @ ''://'' @ n @ p @ t"
    using s_ne s_alpha isalpha_not_C0 by (cases s) auto
  have clean_s: "clean s = s"
    using s_chars scheme_char_facts(2) by (simp add: clean_def)
  have url1: "filter (\<lambda>c. c \<notin> set UNSAFE_URL_BYTES_TO_REMOVE) (s @ ''://'' @ n @ p @ t)
                = s @ '':'' @ (''//'' @ clean n @ clean p @ clean t)"
    using clean_s by (simp add: clean_def UNSAFE_URL_BYTES_TO_REMOVE_def)
  have n': "\<forall>c \<in> set (clean n). \<not> netloc_delim c"
    using assms(2) by (simp add: clean_def)
  have p': "clean p = [] \<or> hd (clean p) = CHR ''/''"
    using assms(3) by (cases p) (auto simp: clean_def UNSAFE_URL_BYTES_TO_REMOVE_def)
  have t': "clean t = [] \<or> hd (clean t) = CHR ''?'' \<or> hd (clean t) = CHR ''#''"
    using assms(6) by (cases t) (auto simp: clean_def UNSAFE_URL_BYTES_TO_REMOVE_def)
  have r': "clean p @ clean t = [] \<or> netloc_delim (hd (clean p @ clean t))"
    using p' t' by (cases "clean p") (auto simp: netloc_delim_def)
  have pq: "CHR ''?'' \<notin> set (clean p)" "CHR ''#'' \<notin> set (clean p)"
    using assms(4,5) by (simp_all add: clean_def)
  have nl: "splitnetloc (''//'' @ clean n @ clean p @ clean t) 2 = (clean n, clean p @ clean t)"
    using netloc_of_locator[OF n' r'] by simp
  have path: "fst (split_query (fst (split_fragment (clean p @ clean t)))) = clean p"
    by (rule path_of_locator[OF pq t'])
  obtain u4 f where sf: "split_fragment (clean p @ clean t) = (u4, f)" by (cases "split_fragment (clean p @ clean t)")
  obtain u5 q where sq: "split_query u4 = (u5, q)" by (cases "split_query u4")
  have u5: "u5 = clean p" using path sf sq by simp
  have "urlsplit lib (s @ ''://'' @ n @ p @ t) =
           (if netloc_brackets_ok lib (clean n) \<and> checknetloc lib (clean n)
            then Inr (str_lower s, clean n, clean p, q, f) else Inl ValueError)"
    unfolding urlsplit_def lstrip url1 split_scheme_locator[OF assms(1)] Let_def prod.case nl
    by (simp add: sf sq u5)
  then show ?thesis by blast
qed

lemma drop_rfind:
  assumes "c \<in> set u"
  shows "\<exists>r. str_rfind u c = Some r \<and> drop r u = c # rev (takeWhile (\<lambda>x. x \<noteq> c) (rev u))"
proof -
  define a where "a = takeWhile (\<lambda>x. x \<noteq> c) (rev u)"
  define d where "d = dropWhile (\<lambda>x. x \<noteq> c) (rev u)"
  have "d \<noteq> []"
    using assms by (auto simp: d_def dropWhile_eq_Nil_conv)
  moreover from this have "hd d = c"
    using hd_dropWhile[of "\<lambda>x. x \<noteq> c" "rev u"] by (simp add: d_def)
  ultimately obtain b where d: "d = c # b" by (cases d) auto
  have "rev u = a @ c # b"
    using takeWhile_dropWhile_id[of "\<lambda>x. x \<noteq> c" "rev u"] by (simp add: a_def d_def[symmetric] d)
  then have "rev (rev u) = rev (a @ c # b)" by simp
  then have u: "u = rev b @ c # rev a" by simp
  have len: "length u - 1 - length a = length (rev b)"
    by (subst u) simp
  have "drop (length u - 1 - length a) u = c # rev a"
    unfolding len by (subst u) simp
  then show ?thesis using assms by (simp add: str_rfind_def a_def)
qed

lemma splitparams_no_params:
  assumes "CHR ''/'' \<in> set u" "CHR '';'' \<notin> set (last_segment u)"
  shows "splitparams u = (u, [])"
proof -
  obtain r where r: "str_rfind u CHR ''/'' = Some r"
      "drop r u = CHR ''/'' # rev (takeWhile (\<lambda>x. x \<noteq> CHR ''/'') (rev u))"
    using drop_rfind[OF assms(1)] by blast
  have "CHR '';'' \<notin> set (drop r u)"
    using assms(2) by (simp add: r(2) last_segment_def)
  then have "str_find_from u CHR '';'' r = None"
    by (simp add: str_find_from_def str_find_def)
  then show ?thesis by (simp add: splitparams_def r(1))
qed

lemma takeWhile_filter_commute:
  assumes "\<And>x. \<not> P x \<Longrightarrow> Q x"
  shows "takeWhile P (filter Q xs) = filter Q (takeWhile P xs)"
  using assms by (induction xs) auto

lemma last_segment_clean: "set (last_segment (clean p)) \<subseteq> set (last_segment p)"
proof -
  have "takeWhile (\<lambda>x. x \<noteq> CHR ''/'') (rev (clean p)) = clean (takeWhile (\<lambda>x. x \<noteq> CHR ''/'') (rev p))"
    unfolding clean_def rev_filter
    by (rule takeWhile_filter_commute) (simp add: UNSAFE_URL_BYTES_TO_REMOVE_def)
  then show ?thesis by (auto simp: last_segment_def clean_def)
qed

lemma canonical_url_locator:
  assumes "locator_parts s n p t"
  shows "canonical_url lib (s @ ''://'' @ n @ p @ t) =
           (if netloc_brackets_ok lib (clean n) \<and> checknetloc lib (clean n)
            then Inr (urlunparse ''vmnetx+https'' (clean n)
                        (if str_lower s \<in> set uses_params \<and> CHR '';'' \<in> set (clean p)
                         then fst (splitparams (clean p)) else clean p) None None None)
            else Inl ValueError)"
proof -
  obtain q f where "urlsplit lib (s @ ''://'' @ n @ p @ t) =
           (if netloc_brackets_ok lib (clean n) \<and> checknetloc lib (clean n)
            then Inr (str_lower s, clean n, clean p, q, f) else Inl ValueError)"
    using urlsplit_locator[of s n p t lib] assms unfolding locator_parts_def by blast
  then show ?thesis
    by (simp add: canonical_url_def urlparse_def split: prod.splits)
qed

lemma path_without_params:
  assumes "p = [] \<or> hd p = CHR ''/''" "CHR '';'' \<notin> set (last_segment p)"
  shows "(if sch \<in> set uses_params \<and> CHR '';'' \<in> set (clean p)
                         then fst (splitparams (clean p)) else clean p) = clean p"
proof (cases "clean p")
  case Nil
  then show ?thesis by simp
next
  case (Cons c r)
  then have "p \<noteq> []" by (auto simp: clean_def)
  then have "hd p = CHR ''/''" using assms(1) by simp
  then have "CHR ''/'' \<in> set (clean p)"
    using \<open>p \<noteq> []\<close> by (cases p) (auto simp: clean_def UNSAFE_URL_BYTES_TO_REMOVE_def)
  moreover have "CHR '';'' \<notin> set (last_segment (clean p))"
    using assms(2) last_segment_clean by blast
  ultimately show ?thesis by (simp add: splitparams_no_params)
qed

text \<open>
  Claim C1, as the code has it. Two locators with the same network location and path, which
  differ only in scheme, query and fragment, get the same identity (or the same error),
  provided that either nothing follows a \<open>;\<close> in the last segment of the path, or
  \<^verbatim>\<open>urlparse\<close> treats both schemes alike, that is, both are in its list \<^verbatim>\<open>uses_params\<close>
  or neither is. The identity is a function of the locator alone: the model takes no
  state and no seed.
\<close>

theorem derive_ignores_scheme_query_fragment:
  assumes "locator_parts s1 n p t1" and "locator_parts s2 n p t2"
    and "CHR '';'' \<notin> set (last_segment p)
         \<or> (str_lower s1 \<in> set uses_params \<longleftrightarrow> str_lower s2 \<in> set uses_params)"
  shows "vmnetx_url_to_uuid lib (s1 @ ''://'' @ n @ p @ t1)
         = vmnetx_url_to_uuid lib (s2 @ ''://'' @ n @ p @ t2)"
proof -
  have p: "p = [] \<or> hd p = CHR ''/''" using assms(1) by (simp add: locator_parts_def)
  have "canonical_url lib (s1 @ ''://'' @ n @ p @ t1) = canonical_url lib (s2 @ ''://'' @ n @ p @ t2)"
    using assms(3)
  proof
    assume "CHR '';'' \<notin> set (last_segment p)"
    then have "\<And>sch. (if sch \<in> set uses_params \<and> CHR '';'' \<in> set (clean p)
                         then fst (splitparams (clean p)) else clean p) = clean p"
      by (rule path_without_params[OF p])
    then show ?thesis
      unfolding canonical_url_locator[OF assms(1)] canonical_url_locator[OF assms(2)]
      by (simp only:)
  next
    assume "str_lower s1 \<in> set uses_params \<longleftrightarrow> str_lower s2 \<in> set uses_params"
    then show ?thesis
      unfolding canonical_url_locator[OF assms(1)] canonical_url_locator[OF assms(2)]
      by simp
  qed
  then show ?thesis by (simp add: vmnetx_url_to_uuid_def)
qed

theorem derive_ignores_scheme_query_fragment_witness:
  "vmnetx_url_to_uuid accepting ''vmnetx://olivearchive.org/vm/win;31''
   = vmnetx_url_to_uuid accepting ''vmnetx+https://olivearchive.org/vm/win;31?x=1#top''"
  using derive_ignores_scheme_query_fragment
          [of "''vmnetx''" "''olivearchive.org''" "''/vm/win;31''" "[]"
              "''vmnetx+https''" "''?x=1#top''" accepting]
  by (simp add: locator_parts_def is_scheme_def netloc_delim_def isascii_def isalpha_def
        scheme_chars_def str_lower_def lower_char_def uses_params_def)

text \<open>
  Claim C1 as stated fails: \<^verbatim>\<open>urlparse\<close> cuts the parameters off the path for a scheme in
  \<^verbatim>\<open>uses_params\<close> only, so \<^verbatim>\<open>https://h/a;b\<close> and \<^verbatim>\<open>vmnetx+https://h/a;b\<close>, which differ in
  the scheme alone, have the canonical forms \<^verbatim>\<open>vmnetx+https://h/a\<close> and
  \<^verbatim>\<open>vmnetx+https://h/a;b\<close> and the identities f581c775-6fc8-5588-8caf-ad0628c42cbf and
  d3caefb2-4114-5166-9ee7-943abfa7ade8.
\<close>

theorem derive_scheme_counterexample:
  "locator_parts ''https'' ''h'' ''/a;b'' [] \<and> locator_parts ''vmnetx+https'' ''h'' ''/a;b'' []
   \<and> vmnetx_url_to_uuid accepting ''https://h/a;b'' = Inr 0xf581c7756fc855888cafad0628c42cbf
   \<and> vmnetx_url_to_uuid accepting ''vmnetx+https://h/a;b'' = Inr 0xd3caefb2411451669ee7943abfa7ade8
   \<and> vmnetx_url_to_uuid accepting ''https://h/a;b''
       \<noteq> vmnetx_url_to_uuid accepting ''vmnetx+https://h/a;b''"
proof -
  have parts: "locator_parts ''https'' ''h'' ''/a;b'' []" "locator_parts ''vmnetx+https'' ''h'' ''/a;b'' []"
    by (simp_all add: locator_parts_def is_scheme_def netloc_delim_def isascii_def isalpha_def
          scheme_chars_def)
  have c1: "canonical_url accepting ''https://h/a;b'' = Inr ''vmnetx+https://h/a''"
    by (simp add: str_eval urlparse_eval)
  have c2: "canonical_url accepting ''vmnetx+https://h/a;b'' = Inr ''vmnetx+https://h/a;b''"
    by (simp add: str_eval urlparse_eval)
  have u1: "uuid5 NAMESPACE_OLIVEARCHIVE ''vmnetx+https://h/a'' = 0xf581c7756fc855888cafad0628c42cbf"
    by (simp add: sha1_eval uuid5_eval)
  have u2: "uuid5 NAMESPACE_OLIVEARCHIVE ''vmnetx+https://h/a;b'' = 0xd3caefb2411451669ee7943abfa7ade8"
    by (simp add: sha1_eval uuid5_eval)
  show ?thesis
    using parts by (simp add: vmnetx_url_to_uuid_def c1 c2 u1 u2)
qed
lemma set_split_scheme: "set (snd (split_scheme u)) \<subseteq> set u"
  by (auto simp: split_scheme_def split: option.splits dest: in_set_dropD)

lemma set_splitnetloc: "set (fst (splitnetloc u k)) \<subseteq> set u"
  by (auto simp: splitnetloc_def Let_def dest: in_set_dropD in_set_takeD)

lemma urlsplit_total:
  assumes "CHR ''['' \<notin> set u" and "CHR '']'' \<notin> set u" and "isascii u"
  shows "\<exists>r. urlsplit lib u = Inr r"
proof -
  define u1 where "u1 = filter (\<lambda>c. c \<notin> set UNSAFE_URL_BYTES_TO_REMOVE) (dropWhile C0_CONTROL_OR_SPACE u)"
  have u1: "set u1 \<subseteq> set u"
    by (auto simp: u1_def dest: set_dropWhileD)
  obtain scheme u2 where ss: "split_scheme u1 = (scheme, u2)" by (cases "split_scheme u1")
  then have u2: "set u2 \<subseteq> set u" using set_split_scheme[of u1] u1 by auto
  define netloc where "netloc = (if take 2 u2 = ''//'' then fst (splitnetloc u2 2) else [])"
  have n: "set netloc \<subseteq> set u"
    using set_splitnetloc[of u2 2] u2 by (auto simp: netloc_def)
  have b: "netloc_brackets_ok lib netloc"
    using assms(1,2) n by (auto simp: netloc_brackets_ok_def)
  have c: "checknetloc lib netloc"
    using assms(3) n by (auto simp: checknetloc_def isascii_def)
  show ?thesis
  proof (cases "take 2 u2 = ''//''")
    case True
    obtain n r where sn: "splitnetloc u2 2 = (n, r)" by (cases "splitnetloc u2 2")
    then have "netloc = n" using True by (simp add: netloc_def)
    with b c show ?thesis
      unfolding urlsplit_def u1_def[symmetric] Let_def ss prod.case
      using True sn by (simp split: prod.splits)
  next
    case False
    then have "netloc = []" by (simp add: netloc_def)
    with c show ?thesis
      unfolding urlsplit_def u1_def[symmetric] Let_def ss prod.case
      using False by (simp split: prod.splits)
  qed
qed

lemma vmnetx_url_to_uuid_error:
  "vmnetx_url_to_uuid lib u = Inl e \<Longrightarrow> e = ValueError"
  by (auto simp: vmnetx_url_to_uuid_def canonical_url_def urlparse_def urlsplit_def Let_def
           split: sum.splits prod.splits if_splits)

text \<open>
  Claim C9, as the code has it. \<open>vmnetx_url_to_uuid\<close> checks nothing itself: every string of
  ASCII characters without square brackets, a well-formed URL or not, gets an identity.
  Its only failure is the ValueError of \<^verbatim>\<open>urlparse\<close>, which is raised for a network location
  with unmatched or rejected brackets or one that fails the NFKC check.
\<close>

theorem derive_validates_nothing:
  "(CHR ''['' \<notin> set u \<and> CHR '']'' \<notin> set u \<and> isascii u \<longrightarrow> (\<exists>i. vmnetx_url_to_uuid lib u = Inr i))
   \<and> (\<forall>e. vmnetx_url_to_uuid lib u = Inl e \<longrightarrow> e = ValueError)"
proof (intro conjI impI allI)
  assume "CHR ''['' \<notin> set u \<and> CHR '']'' \<notin> set u \<and> isascii u"
  then obtain r where "urlsplit lib u = Inr r" using urlsplit_total by blast
  then show "\<exists>i. vmnetx_url_to_uuid lib u = Inr i"
    by (auto simp: vmnetx_url_to_uuid_def canonical_url_def urlparse_def split: prod.splits)
next
  fix e assume "vmnetx_url_to_uuid lib u = Inl e"
  then show "e = ValueError" by (rule vmnetx_url_to_uuid_error)
qed

theorem derive_validates_nothing_witness:
  "vmnetx_url_to_uuid accepting ''::: no locator :::'' = Inr (uuid5 NAMESPACE_OLIVEARCHIVE ''vmnetx+https:::: no locator :::'')
   \<and> vmnetx_url_to_uuid accepting ''vmnetx://[::1/vm'' = Inl ValueError"
  using derive_validates_nothing[of "''::: no locator :::''" accepting]
    derive_validates_nothing[of "''vmnetx://[::1/vm''" accepting]
  by (simp add: vmnetx_url_to_uuid_def str_find_def str_find_from_def str_rfind_def str_lower_def
        isascii_def isalpha_def uses_netloc_def uses_params_def scheme_chars_def
        C0_CONTROL_OR_SPACE_def UNSAFE_URL_BYTES_TO_REMOVE_def splitnetloc_def split_scheme_def
        netloc_brackets_ok_def checknetloc_def split_fragment_def split_query_def urlsplit_def
        splitparams_def urlparse_def or_empty_def urlunsplit_def urlunparse_def canonical_url_def)

text \<open>
  Claim C9 as stated fails: the strings \<^verbatim>\<open>not a url\<close> and the empty string are no absolute
  URLs, and both get an identity.
\<close>

theorem derive_malformed_counterexample:
  "vmnetx_url_to_uuid accepting ''not a url'' = Inr (uuid5 NAMESPACE_OLIVEARCHIVE ''vmnetx+https:not a url'')
   \<and> vmnetx_url_to_uuid accepting '''' = Inr (uuid5 NAMESPACE_OLIVEARCHIVE ''vmnetx+https:'')"
  by (simp add: vmnetx_url_to_uuid_def str_find_def str_find_from_def str_rfind_def str_lower_def
        isascii_def isalpha_def uses_netloc_def uses_params_def scheme_chars_def
        C0_CONTROL_OR_SPACE_def UNSAFE_URL_BYTES_TO_REMOVE_def splitnetloc_def split_scheme_def
        netloc_brackets_ok_def checknetloc_def split_fragment_def split_query_def urlsplit_def
        splitparams_def urlparse_def or_empty_def urlunsplit_def urlunparse_def canonical_url_def)


subsection \<open>Effects of the stages of convert\<close>

lemma bind_io_simps [simp]:
  "bind_io (return x) f = f x"
  "bind_io (raise e) f = raise e"
  "bind_io (lift (Inr x)) f = f x"
  "bind_io (lift (Inl e)) f = raise e"
  by (auto simp: bind_io_def return_def raise_def lift_def)

lemma appendsI:
  assumes "\<And>s. recipes (snd (m s)) = recipes s"
    and "\<And>s. \<exists>evs. trace (snd (m s)) = trace s @ evs \<and> (\<forall>ev \<in> set evs. P ev)"
  shows "appends P m"
  using assms unfolding appends_def by blast

lemma appends_return [intro!, simp]: "appends P (return x)"
  by (simp add: appends_def return_def)

lemma appends_raise [intro!, simp]: "appends P (raise e)"
  by (simp add: appends_def raise_def)

lemma appends_lift [intro!, simp]: "appends P (lift r)"
  by (simp add: appends_def lift_def)

lemma appends_emit [intro]: "P ev \<Longrightarrow> appends P (emit ev)"
  by (simp add: appends_def emit_def)

lemma appends_print [intro]: "P (Print t) \<Longrightarrow> appends P (print t)"
  by (simp add: print_def appends_emit)

lemma appends_input [intro]: "P (Input prompt) \<Longrightarrow> appends P (input prompt)"
  by (simp add: appends_def input_def split: list.splits)

lemma appends_bind [intro]:
  assumes "appends P m" and "\<And>x. appends P (f x)"
  shows "appends P (bind_io m f)"
proof (rule appendsI)
  fix s
  obtain r s1 where m: "m s = (r, s1)" by (cases "m s")
  from assms(1) have r1: "recipes s1 = recipes s"
    and "\<exists>evs. trace s1 = trace s @ evs \<and> (\<forall>ev \<in> set evs. P ev)"
    unfolding appends_def using m by (metis snd_conv)+
  then obtain evs1 where t1: "trace s1 = trace s @ evs1" "\<forall>ev \<in> set evs1. P ev" by blast
  show "recipes (snd (bind_io m f s)) = recipes s"
  proof (cases r)
    case (Inl e)
    then show ?thesis using m r1 by (simp add: bind_io_def)
  next
    case (Inr x)
    then show ?thesis using m r1 assms(2)[of x] by (simp add: bind_io_def appends_def)
  qed
  show "\<exists>evs. trace (snd (bind_io m f s)) = trace s @ evs \<and> (\<forall>ev \<in> set evs. P ev)"
  proof (cases r)
    case (Inl e)
    then show ?thesis using m t1 by (simp add: bind_io_def)
  next
    case (Inr x)
    from assms(2)[of x] obtain evs2 where "trace (snd (f x s1)) = trace s1 @ evs2" "\<forall>ev \<in> set evs2. P ev"
      unfolding appends_def by blast
    then have "trace (snd (bind_io m f s)) = trace s @ (evs1 @ evs2) \<and> (\<forall>ev \<in> set (evs1 @ evs2). P ev)"
      using m Inr t1 by (auto simp: bind_io_def)
    then show ?thesis by blast
  qed
qed

lemma appends_if [intro]:
  "(c \<Longrightarrow> appends P m) \<Longrightarrow> (\<not> c \<Longrightarrow> appends P n) \<Longrightarrow> appends P (if c then m else n)"
  by simp

lemma appends_subprocess_run [intro]: "P (Run argv) \<Longrightarrow> appends P (subprocess_run st argv)"
  unfolding subprocess_run_def by (intro appends_bind appends_emit appends_if) auto

lemma appends_name_loop: "P (Input ''VM image name: '') \<Longrightarrow> appends P (name_loop n)"
proof -
  assume P: "P (Input ''VM image name: '')"
  have "recipes (snd (name_loop n s)) = recipes s
        \<and> (\<exists>evs. trace (snd (name_loop n s)) = trace s @ evs \<and> (\<forall>ev \<in> set evs. P ev))" for s
  proof (induction n s rule: name_loop.induct)
    case (1 vmi_fullname s)
    show ?case
    proof (cases "vmi_fullname \<in> set ['''', ''Virtual Machine'']")
      case False
      then show ?thesis by (subst name_loop.simps, subst name_loop.simps) simp
    next
      case True
      show ?thesis
      proof (cases "stdin s")
        case Nil
        then show ?thesis using True P
          by (subst name_loop.simps, subst name_loop.simps) (simp add: input_def)
      next
        case (Cons l ls)
        let ?s' = "s\<lparr>stdin := ls, trace := trace s @ [Input ''VM image name: '']\<rparr>"
        have i: "input ''VM image name: '' s = (Inr l, ?s')" using Cons by (simp add: input_def)
        from "1.IH"[OF True i[symmetric] refl] obtain evs where
          "recipes (snd (name_loop l ?s')) = recipes ?s'"
          "trace (snd (name_loop l ?s')) = trace ?s' @ evs" "\<forall>ev \<in> set evs. P ev" by blast
        then have "recipes (snd (name_loop l ?s')) = recipes s
            \<and> trace (snd (name_loop l ?s')) = trace s @ (Input ''VM image name: '' # evs)
            \<and> (\<forall>ev \<in> set (Input ''VM image name: '' # evs). P ev)" using P by simp
        then show ?thesis using True i
          by (subst name_loop.simps, subst name_loop.simps) (auto simp del: set_simps)
      qed
    qed
  qed
  then show ?thesis unfolding appends_def by blast
qed

lemma appends_copy_loop:
  "(\<And>n. P (Write_bytes dst n)) \<Longrightarrow> (\<And>t. P (Print t)) \<Longrightarrow> appends P (copy_loop dst total_size ns copied)"
proof (induction ns arbitrary: copied)
  case Nil
  then show ?case by simp
next
  case (Cons n ns)
  show ?case
    unfolding copy_loop.simps
    by (intro appends_if appends_bind appends_emit appends_print appends_lift appends_return Cons)
qed

lemma appends_case_prod [intro]:
  "(\<And>x y. appends P (f x y)) \<Longrightarrow> appends P (case_prod f p)"
  by (cases p) simp

lemmas appends_intros = appends_bind appends_if appends_case_prod appends_emit appends_print
  appends_input appends_lift appends_return appends_raise appends_subprocess_run

lemma benign_events [simp]:
  "\<not> publishes_or_deletes (Print t)"
  "\<not> publishes_or_deletes (Mkdir p)"
  "\<not> publishes_or_deletes (Mkdtemp d)"
  "\<not> publishes_or_deletes (Urlopen u)"
  "\<not> publishes_or_deletes (Write_bytes p n)"
  "\<not> publishes_or_deletes (Write_text p t)"
  "\<not> publishes_or_deletes (Extract m p)"
  "\<not> publishes_or_deletes (Input ''VM image name: '')"
  "\<not> publishes_or_deletes (Run (''qemu-img'' # argv))"
  "\<not> publishes_or_deletes (Run (''docker'' # ''build'' # argv))"
  by (simp_all add: publishes_or_deletes_def)

lemma appends_fetch:
  assumes "\<And>ev. \<not> publishes_or_deletes ev \<Longrightarrow> P ev"
  shows "appends P (fetch w a dst)"
  unfolding fetch_def
  by (intro appends_intros appends_copy_loop assms) simp_all

lemma appends_inspect:
  assumes "\<And>ev. \<not> publishes_or_deletes ev \<Longrightarrow> P ev"
  shows "appends P (inspect w tmpdir)"
  unfolding inspect_def
  by (intro appends_intros appends_name_loop assms) simp_all

lemma appends_encode:
  assumes "\<And>ev. \<not> publishes_or_deletes ev \<Longrightarrow> P ev" and "\<And>ev. tmp_dir a = None \<Longrightarrow> P ev"
  shows "appends P (encode w a tmpdir n)"
  unfolding encode_def compression_report_def
  by (intro appends_intros assms) simp_all

lemma appends_build:
  assumes "\<And>ev. \<not> publishes_or_deletes ev \<Longrightarrow> P ev"
  shows "appends P (build w a tmpdir u n)"
  unfolding build_def
  by (intro appends_intros assms) simp_all

lemma appends_publish:
  assumes "\<And>ev. tmp_dir a = None \<Longrightarrow> P ev"
  shows "appends P (publish w a tmpdir u)"
  unfolding publish_def
  by (intro appends_intros assms) simp_all

lemma appends_prepare:
  assumes "\<And>ev. \<not> publishes_or_deletes ev \<Longrightarrow> P ev" and "\<And>ev. tmp_dir a = None \<Longrightarrow> P ev"
  shows "appends P (prepare w a)"
  unfolding prepare_def
  by (intro appends_intros appends_fetch appends_inspect appends_encode appends_build assms) simp_all

lemma appends_with_block:
  assumes "\<And>ev. \<not> publishes_or_deletes ev \<Longrightarrow> P ev" and "\<And>ev. tmp_dir a = None \<Longrightarrow> P ev"
  shows "appends P (with_block w a)"
  unfolding with_block_def
  by (intro appends_intros appends_prepare appends_publish assms) simp_all

lemma appends_with_tmp_ctx:
  assumes "appends P body" and "\<And>ev. tmp_dir a = None \<Longrightarrow> P ev"
  shows "appends P (with_tmp_ctx w a body)"
proof (cases "tmp_dir a")
  case (Some d)
  then show ?thesis using assms(1) by (simp add: with_tmp_ctx_def[abs_def])
next
  case None
  show ?thesis
  proof (rule appendsI)
    fix s :: state
    let ?s0 = "s\<lparr>trace := trace s @ [Mkdtemp (mkdtemp w)]\<rparr>"
    obtain r s1 where bs: "body ?s0 = (r, s1)" by (cases "body ?s0")
    from assms(1) obtain evs where b: "recipes s1 = recipes ?s0" "trace s1 = trace ?s0 @ evs"
      unfolding appends_def using bs by (metis snd_conv)
    show "recipes (snd (with_tmp_ctx w a body s)) = recipes s"
      using None b(1) bs by (simp add: with_tmp_ctx_def)
    have "trace (snd (with_tmp_ctx w a body s))
            = trace s @ (Mkdtemp (mkdtemp w) # evs @ [Cleanup (Path (mkdtemp w))])"
      using None b(2) bs by (simp add: with_tmp_ctx_def)
    then show "\<exists>evs. trace (snd (with_tmp_ctx w a body s)) = trace s @ evs \<and> (\<forall>ev \<in> set evs. P ev)"
      using assms(2)[OF None] by blast
  qed
qed

lemma frame_with_block:
  "recipes (snd (with_tmp_ctx w a (with_block w a) s)) = recipes s"
proof -
  have "appends (\<lambda>_. True) (with_tmp_ctx w a (with_block w a))"
    by (intro appends_with_tmp_ctx appends_with_block) simp_all
  then show ?thesis by (simp add: appends_def)
qed

lemma bind_io_Inr_iff:
  "bind_io m f s = (Inr y, s') \<longleftrightarrow> (\<exists>x s1. m s = (Inr x, s1) \<and> f x s1 = (Inr y, s'))"
  by (auto simp: bind_io_def split: prod.splits sum.splits)

lemma build_last_event:
  assumes "build w a tmpdir u n s = (Inr x, s')"
  shows "last (trace s') = Run [''docker'', ''build'', ''-t'', DOCKER_TAG a u, resolve w tmpdir]"
  using assms
  by (auto simp: build_def subprocess_run_def bind_io_Inr_iff print_def emit_def return_def raise_def
           split: if_splits)

lemma prepare_last_event:
  assumes "prepare w a s = (Inr info, s')"
  shows "last (trace s') = Run [''docker'', ''build'', ''-t'', DOCKER_TAG a (fst info),
                               resolve w (Path (temporary_directory w a))]"
proof -
  from assms obtain u n s1 x where "build w a (Path (temporary_directory w a)) u n s1 = (Inr x, s')"
    and "fst info = u"
    unfolding prepare_def
    by (auto simp: bind_io_Inr_iff return_def split: prod.splits)
  then show ?thesis using build_last_event by metis
qed

lemma emit_recipe_trace:
  "\<exists>evs. trace (snd (emit_recipe a info s)) = trace s @ evs \<and> (\<forall>ev \<in> set evs. \<not> publishes_or_deletes ev)"
  by (cases info)
     (auto simp: emit_recipe_def bind_io_def print_def emit_def lift_def write_recipe_def input_def
             return_def publishes_or_deletes_def nl_def split: sum.splits list.splits)

lemma with_block_persistent:
  assumes "tmp_dir a = Some d"
  shows "with_tmp_ctx w a (with_block w a) s = prepare w a s"
proof -
  have "bind_io (prepare w a) (\<lambda>(u, n, c, m). bind_io (return ()) (\<lambda>_. return (u, n, c, m))) s = prepare w a s"
    by (auto simp: bind_io_def return_def split: prod.splits sum.splits)
  then show ?thesis using assms by (simp add: with_tmp_ctx_def with_block_def publish_def)
qed


subsection \<open>Compression report, sizing and the display name\<close>

lemmas int_eval = int_of_str_def int_max_str_digits_def isspace_def isdigit_def digit_value_def
  str_int_def str_nat.simps floordiv_def

lemma sdiv_nonneg: "0 \<le> a \<Longrightarrow> 0 < b \<Longrightarrow> a sdiv b = a div (b :: int)"
  by (simp add: signed_divide_int_def sgn_if)





lemma encode_empty_image:
  assumes "status w [''qemu-img'', ''convert'', ''-c'', ''-p'', ''-O'', ''qcow2'',
                     resolve w (Div tmpdir ''disk.img''), resolve w (Div tmpdir ''disk.qcow2'')] = 0"
  shows "fst (encode w a tmpdir 0 s) = Inl ZeroDivisionError"
  using assms
  by (simp add: encode_def subprocess_run_def compression_def compression_report_def floordiv_def
        bind_io_def lift_def print_def emit_def return_def raise_def)



text \<open>
  Claim C3 as stated fails: a disk image of 1000 bytes re-encoded to 999 bytes saves 0.1
  percent, which truncated toward zero is 0 and would suppress the line; the program
  prints savings of 1 percent.
\<close>

theorem compression_savings_counterexample:
  "spec_compression 1000 999 = 0
   \<and> encode (example_world\<lparr>disk_qcow_size := 999\<rparr>) example_args (Path ''/var/tmp/tmpk3v9'') 1000
        (example_state [])
     = (Inr (), \<lparr>stdin = [],
                 trace = [Print (''Recompressing disk image'' @ nl),
                          Run [''qemu-img'', ''convert'', ''-c'', ''-p'', ''-O'', ''qcow2'', ''/abs'', ''/abs''],
                          Print (''compression savings 1%'' @ nl),
                          Unlink (Div (Path ''/var/tmp/tmpk3v9'') ''disk.img'')],
                 recipes = Map.empty\<rparr>)"
  by (simp add: spec_compression_def signed_divide_int_def example_world_def example_args_def
        example_state_def encode_def subprocess_run_def compression_def compression_report_def
        floordiv_def bind_io_def lift_def print_def emit_def return_def str_int_def str_nat.simps)

lemma name_loop_accepts:
  "\<not> placeholder n \<Longrightarrow> name_loop n s = (Inr n, s)"
  by (subst name_loop.simps) (simp add: placeholder_def)

lemma name_loop_asks:
  "placeholder n \<Longrightarrow> stdin s = l # ls \<Longrightarrow>
     name_loop n s = name_loop l (s\<lparr>stdin := ls, trace := trace s @ [Input ''VM image name: '']\<rparr>)"
  by (subst name_loop.simps) (auto simp: placeholder_def input_def)

lemma name_loop_eof:
  "placeholder n \<Longrightarrow> stdin s = [] \<Longrightarrow>
     name_loop n s = (Inl EOFError, s\<lparr>trace := trace s @ [Input ''VM image name: '']\<rparr>)"
  by (subst name_loop.simps) (auto simp: placeholder_def input_def)

lemma name_loop_rejects:
  assumes "placeholder n" and "\<forall>l \<in> set rejected. placeholder l" and "\<not> placeholder answer"
    and "stdin s = rejected @ answer # rest"
  shows "name_loop n s =
           (Inr answer, s\<lparr>stdin := rest,
                           trace := trace s @ replicate (Suc (length rejected)) (Input ''VM image name: '')\<rparr>)"
  using assms
proof (induction rejected arbitrary: n s)
  case Nil
  then show ?case by (simp add: name_loop_asks name_loop_accepts)
next
  case (Cons l ls)
  let ?s' = "s\<lparr>stdin := ls @ answer # rest, trace := trace s @ [Input ''VM image name: '']\<rparr>"
  have "name_loop n s = name_loop l ?s'"
    using Cons.prems by (simp add: name_loop_asks)
  also have "\<dots> = (Inr answer, ?s'\<lparr>stdin := rest,
                 trace := trace ?s' @ replicate (Suc (length ls)) (Input ''VM image name: '')\<rparr>)"
    using Cons.prems by (intro Cons.IH) simp_all
  finally show ?case by (simp add: replicate_append_same)
qed

lemma name_loop_blocks:
  assumes "placeholder n" and "\<forall>l \<in> set (stdin s). placeholder l"
  shows "name_loop n s =
           (Inl EOFError, s\<lparr>stdin := [],
                            trace := trace s @ replicate (Suc (length (stdin s))) (Input ''VM image name: '')\<rparr>)"
  using assms
proof (induction "stdin s" arbitrary: n s)
  case Nil
  then show ?case by (simp add: name_loop_eof)
next
  case (Cons l ls)
  let ?s' = "s\<lparr>stdin := ls, trace := trace s @ [Input ''VM image name: '']\<rparr>"
  have "name_loop n s = name_loop l ?s'"
    using Cons.prems(1) Cons.hyps(2)[symmetric] by (simp add: name_loop_asks)
  also have "\<dots> = (Inl EOFError, ?s'\<lparr>stdin := [],
                 trace := trace ?s' @ replicate (Suc (length (stdin ?s'))) (Input ''VM image name: '')\<rparr>)"
    using Cons.prems(2) Cons.hyps(2)[symmetric] by (intro Cons.hyps(1)) simp_all
  finally show ?case using Cons.hyps(2)[symmetric] by (simp add: replicate_append_same)
qed

lemma inspect_proceeds:
  assumes "zipfile w = Inr z" and "vmnetx_package_xml z = Some (Document package_description)"
    and "map_of (attrib package_description) ''name'' = Some name"
    and "name_loop name s = (Inr vmi_fullname, s1)"
    and "domain_xml z = Some (Document domain)" and "sizing domain = Inr (cpus, memory)"
    and "disk_img z = Some n"
  shows "inspect w tmpdir s
           = (Inr (vmi_fullname, cpus, memory, n),
              s1\<lparr>trace := trace s1 @ [Print (vmi_fullname @ nl),
                                       Print (''cpus '' @ str_int cpus @ '' memory '' @ str_int memory @ nl),
                                       Print (''Extracting disk image'' @ nl),
                                       Extract ''disk.img'' tmpdir]\<rparr>)"
  using assms
  by (simp add: inspect_def XML_def getitem_def bind_io_def lift_def print_def emit_def return_def)

lemma inspect_blocked:
  assumes "zipfile w = Inr z" and "vmnetx_package_xml z = Some (Document package_description)"
    and "map_of (attrib package_description) ''name'' = Some name"
    and "name_loop name s = (Inl e, s1)"
  shows "inspect w tmpdir s = (Inl e, s1)"
  using assms
  by (simp add: inspect_def XML_def getitem_def bind_io_def lift_def)

text \<open>
  Claim C5. When the package has been opened and named, and the domain descriptor gives
  the numbers \<open>cpus\<close> and \<open>m\<close> for \<^verbatim>\<open>vcpu\<close> and \<^verbatim>\<open>memory\<close>, \<open>inspect\<close> reports and returns
  \<open>cpus\<close> and \<open>m\<close> divided by 1024 with the remainder dropped (for \<open>m\<close> not negative, as a
  memory size is). The values 131072 and 1500 give 128 and 1; a descriptor without
  \<^verbatim>\<open>vcpu\<close> gives 1 CPU, one without \<^verbatim>\<open>memory\<close> gives 65536 divided by 1024, that is 64.
\<close>

theorem memory_in_sizing_unit:
  assumes "zipfile w = Inr z"
    and "vmnetx_package_xml z = Some (Document package_description)"
    and "map_of (attrib package_description) ''name'' = Some name"
    and "name_loop name s = (Inr vmi_fullname, s1)"
    and "domain_xml z = Some (Document domain)"
    and "int_of_str (findtext domain ''vcpu'' ''1'') = Inr cpus"
    and "int_of_str (findtext domain ''memory'' ''65536'') = Inr m"
    and "disk_img z = Some n"
  shows "inspect w tmpdir s
           = (Inr (vmi_fullname, cpus, m div 1024, n),
              s1\<lparr>trace := trace s1 @ [Print (vmi_fullname @ nl),
                                       Print (''cpus '' @ str_int cpus @ '' memory '' @ str_int (m div 1024) @ nl),
                                       Print (''Extracting disk image'' @ nl),
                                       Extract ''disk.img'' tmpdir]\<rparr>)
       \<and> (0 \<le> m \<longrightarrow> m div 1024 = m sdiv 1024 \<and> 1024 * (m div 1024) \<le> m \<and> m < 1024 * (m div 1024) + 1024)
       \<and> (map_of (children domain) ''vcpu'' = None \<longrightarrow> cpus = 1)
       \<and> (map_of (children domain) ''memory'' = None \<longrightarrow> m div 1024 = 64)
       \<and> (map_of (children domain) ''memory'' = Some (Some ''131072'') \<longrightarrow> m div 1024 = 128)
       \<and> (map_of (children domain) ''memory'' = Some (Some ''1500'') \<longrightarrow> m div 1024 = 1)"
proof -
  have ex: "int_of_str ''1'' = Inr 1" "int_of_str ''65536'' = Inr 65536"
    "int_of_str ''131072'' = Inr 131072" "int_of_str ''1500'' = Inr 1500"
    by (simp_all add: int_eval)
  have "sizing domain = Inr (cpus, m div 1024)"
    using assms(6,7) by (simp add: sizing_def)
  then have 1: "inspect w tmpdir s
           = (Inr (vmi_fullname, cpus, m div 1024, n),
              s1\<lparr>trace := trace s1 @ [Print (vmi_fullname @ nl),
                                       Print (''cpus '' @ str_int cpus @ '' memory '' @ str_int (m div 1024) @ nl),
                                       Print (''Extracting disk image'' @ nl),
                                       Extract ''disk.img'' tmpdir]\<rparr>)"
    using assms(1-5,8) by (intro inspect_proceeds)
  have 2: "0 \<le> m \<longrightarrow> m div 1024 = m sdiv 1024 \<and> 1024 * (m div 1024) \<le> m \<and> m < 1024 * (m div 1024) + 1024"
  proof
    assume "0 \<le> m"
    then have "m div 1024 = m sdiv 1024" by (simp add: sdiv_nonneg)
    moreover have "1024 * (m div 1024) \<le> m \<and> m < 1024 * (m div 1024) + 1024" by presburger
    ultimately show "m div 1024 = m sdiv 1024 \<and> 1024 * (m div 1024) \<le> m \<and> m < 1024 * (m div 1024) + 1024"
      by simp
  qed
  have 3: "map_of (children domain) ''vcpu'' = None \<longrightarrow> cpus = 1"
    using assms(6) ex by (auto simp: findtext_def)
  have 4: "map_of (children domain) ''memory'' = None \<longrightarrow> m div 1024 = 64"
    using assms(7) ex by (auto simp: findtext_def)
  have 5: "map_of (children domain) ''memory'' = Some (Some ''131072'') \<longrightarrow> m div 1024 = 128"
    using assms(7) ex by (auto simp: findtext_def)
  have 6: "map_of (children domain) ''memory'' = Some (Some ''1500'') \<longrightarrow> m div 1024 = 1"
    using assms(7) ex by (auto simp: findtext_def)
  show ?thesis using 1 2 3 4 5 6 by (intro conjI)
qed

theorem memory_in_sizing_unit_witness:
  "inspect (example_world\<lparr>zipfile := Inr (example_archive\<lparr>domain_xml := Some (Document
              \<lparr>attrib = [(''type'', ''kvm'')],
               children = [(''name'', Some ''machine''), (''memory'', Some ''1500''), (''vcpu'', Some ''4'')]\<rparr>)\<rparr>)\<rparr>)
      (Path ''work'') (example_state [])
     = (Inr (''Windows 3.1'', 4, 1, 1000),
        \<lparr>stdin = [],
         trace = [Print (''Windows 3.1'' @ nl), Print (''cpus 4 memory 1'' @ nl),
                  Print (''Extracting disk image'' @ nl), Extract ''disk.img'' (Path ''work'')],
         recipes = Map.empty\<rparr>)
   \<and> inspect example_world (Path ''work'') (example_state [])
     = (Inr (''Windows 3.1'', 2, 128, 1000),
        \<lparr>stdin = [],
         trace = [Print (''Windows 3.1'' @ nl), Print (''cpus 2 memory 128'' @ nl),
                  Print (''Extracting disk image'' @ nl), Extract ''disk.img'' (Path ''work'')],
         recipes = Map.empty\<rparr>)
   \<and> inspect (example_world\<lparr>zipfile := Inr (example_archive\<lparr>domain_xml := Some (Document
              \<lparr>attrib = [], children = []\<rparr>)\<rparr>)\<rparr>)
      (Path ''work'') (example_state [])
     = (Inr (''Windows 3.1'', 1, 64, 1000),
        \<lparr>stdin = [],
         trace = [Print (''Windows 3.1'' @ nl), Print (''cpus 1 memory 64'' @ nl),
                  Print (''Extracting disk image'' @ nl), Extract ''disk.img'' (Path ''work'')],
         recipes = Map.empty\<rparr>)"
proof -
  let ?d1 = "\<lparr>attrib = [(''type'', ''kvm'')],
               children = [(''name'', Some ''machine''), (''memory'', Some ''1500''), (''vcpu'', Some ''4'')]\<rparr>"
  let ?d2 = "\<lparr>attrib = [(''type'', ''kvm'')],
               children = [(''name'', Some ''machine''), (''memory'', Some ''131072''), (''vcpu'', Some ''2'')]\<rparr>"
  let ?d3 = "\<lparr>attrib = [], children = []\<rparr> :: element"
  let ?pd = "\<lparr>attrib = [(''name'', ''Windows 3.1'')], children = []\<rparr>"
  let ?z1 = "example_archive\<lparr>domain_xml := Some (Document ?d1)\<rparr>"
  let ?z3 = "example_archive\<lparr>domain_xml := Some (Document ?d3)\<rparr>"
  have n: "name_loop ''Windows 3.1'' (example_state []) = (Inr ''Windows 3.1'', example_state [])"
    by (rule name_loop_accepts) (simp add: placeholder_def)
  have i: "int_of_str (findtext ?d1 ''vcpu'' ''1'') = Inr 4"
    "int_of_str (findtext ?d1 ''memory'' ''65536'') = Inr 1500"
    "int_of_str (findtext ?d2 ''vcpu'' ''1'') = Inr 2"
    "int_of_str (findtext ?d2 ''memory'' ''65536'') = Inr 131072"
    "int_of_str (findtext ?d3 ''vcpu'' ''1'') = Inr 1"
    "int_of_str (findtext ?d3 ''memory'' ''65536'') = Inr 65536"
    by (simp_all add: findtext_def int_eval)
  have z: "zipfile (example_world\<lparr>zipfile := Inr ?z1\<rparr>) = Inr ?z1"
    "zipfile example_world = Inr example_archive"
    "zipfile (example_world\<lparr>zipfile := Inr ?z3\<rparr>) = Inr ?z3"
    by (simp_all add: example_world_def)
  have p: "vmnetx_package_xml ?z1 = Some (Document ?pd)"
    "vmnetx_package_xml example_archive = Some (Document ?pd)"
    "vmnetx_package_xml ?z3 = Some (Document ?pd)"
    by (simp_all add: example_archive_def)
  have a: "map_of (attrib ?pd) ''name'' = Some ''Windows 3.1''" by simp
  have d: "domain_xml ?z1 = Some (Document ?d1)" "domain_xml example_archive = Some (Document ?d2)"
    "domain_xml ?z3 = Some (Document ?d3)"
    by (simp_all add: example_archive_def)
  have k: "disk_img ?z1 = Some 1000" "disk_img example_archive = Some 1000" "disk_img ?z3 = Some 1000"
    by (simp_all add: example_archive_def)
  have c: "(1500 :: int) div 1024 = 1" "(131072 :: int) div 1024 = 128" "(65536 :: int) div 1024 = 64"
    by simp_all
  note t1 = memory_in_sizing_unit[OF z(1) p(1) a n d(1) i(1,2) k(1), of "Path ''work''"]
  note t2 = memory_in_sizing_unit[OF z(2) p(2) a n d(2) i(3,4) k(2), of "Path ''work''"]
  note t3 = memory_in_sizing_unit[OF z(3) p(3) a n d(3) i(5,6) k(3), of "Path ''work''"]
  show ?thesis
    using t1[THEN conjunct1] t2[THEN conjunct1] t3[THEN conjunct1] unfolding c
    by (simp add: example_state_def str_int_def str_nat.simps)
qed

text \<open>
  Claim C8. \<open>inspect\<close> takes the attribute \<^verbatim>\<open>name\<close> of the package description. A name that is
  neither empty nor \<^verbatim>\<open>Virtual Machine\<close> is printed and returned unchanged, with no prompt
  and no line read. Otherwise the operator is asked, again after every answer that is
  empty or \<^verbatim>\<open>Virtual Machine\<close>, and the first other answer is the name that is printed and
  returned; if standard input ends before such an answer, \<open>inspect\<close> stops with EOFError
  after the prompts, and nothing of the package is reported or extracted.
\<close>

theorem display_name_gate:
  assumes "zipfile w = Inr z"
    and "vmnetx_package_xml z = Some (Document package_description)"
    and "map_of (attrib package_description) ''name'' = Some name"
    and "domain_xml z = Some (Document domain)" and "sizing domain = Inr (cpus, memory)"
    and "disk_img z = Some n"
  shows "(\<not> placeholder name \<longrightarrow>
            inspect w tmpdir s
              = (Inr (name, cpus, memory, n),
                 s\<lparr>trace := trace s
                    @ [Print (name @ nl),
                       Print (''cpus '' @ str_int cpus @ '' memory '' @ str_int memory @ nl),
                       Print (''Extracting disk image'' @ nl), Extract ''disk.img'' tmpdir]\<rparr>))
       \<and> (placeholder name \<and> (\<forall>l \<in> set rejected. placeholder l) \<and> \<not> placeholder answer
            \<and> stdin s = rejected @ answer # rest \<longrightarrow>
            inspect w tmpdir s
              = (Inr (answer, cpus, memory, n),
                 s\<lparr>stdin := rest,
                    trace := trace s
                    @ replicate (Suc (length rejected)) (Input ''VM image name: '')
                    @ [Print (answer @ nl),
                       Print (''cpus '' @ str_int cpus @ '' memory '' @ str_int memory @ nl),
                       Print (''Extracting disk image'' @ nl), Extract ''disk.img'' tmpdir]\<rparr>))
       \<and> (placeholder name \<and> (\<forall>l \<in> set (stdin s). placeholder l) \<longrightarrow>
            inspect w tmpdir s
              = (Inl EOFError,
                 s\<lparr>stdin := [],
                    trace := trace s @ replicate (Suc (length (stdin s))) (Input ''VM image name: '')\<rparr>))
       \<and> (placeholder name \<longleftrightarrow> name = [] \<or> name = ''Virtual Machine'')"
proof (intro conjI impI)
  assume "\<not> placeholder name"
  then have "name_loop name s = (Inr name, s)" by (rule name_loop_accepts)
  from inspect_proceeds[OF assms(1-3) this assms(4-6)]
  show "inspect w tmpdir s
              = (Inr (name, cpus, memory, n),
                 s\<lparr>trace := trace s
                    @ [Print (name @ nl),
                       Print (''cpus '' @ str_int cpus @ '' memory '' @ str_int memory @ nl),
                       Print (''Extracting disk image'' @ nl), Extract ''disk.img'' tmpdir]\<rparr>)" .
next
  assume a: "placeholder name \<and> (\<forall>l \<in> set rejected. placeholder l) \<and> \<not> placeholder answer
            \<and> stdin s = rejected @ answer # rest"
  then have "name_loop name s
               = (Inr answer, s\<lparr>stdin := rest,
                    trace := trace s @ replicate (Suc (length rejected)) (Input ''VM image name: '')\<rparr>)"
    by (intro name_loop_rejects) simp_all
  from inspect_proceeds[OF assms(1-3) this assms(4-6)]
  show "inspect w tmpdir s
              = (Inr (answer, cpus, memory, n),
                 s\<lparr>stdin := rest,
                    trace := trace s
                    @ replicate (Suc (length rejected)) (Input ''VM image name: '')
                    @ [Print (answer @ nl),
                       Print (''cpus '' @ str_int cpus @ '' memory '' @ str_int memory @ nl),
                       Print (''Extracting disk image'' @ nl), Extract ''disk.img'' tmpdir]\<rparr>)"
    by simp
next
  assume a: "placeholder name \<and> (\<forall>l \<in> set (stdin s). placeholder l)"
  then have "name_loop name s
               = (Inl EOFError, s\<lparr>stdin := [],
                    trace := trace s @ replicate (Suc (length (stdin s))) (Input ''VM image name: '')\<rparr>)"
    by (intro name_loop_blocks) simp_all
  from inspect_blocked[OF assms(1-3) this]
  show "inspect w tmpdir s
              = (Inl EOFError,
                 s\<lparr>stdin := [],
                    trace := trace s @ replicate (Suc (length (stdin s))) (Input ''VM image name: '')\<rparr>)" .
next
  show "placeholder name \<longleftrightarrow> name = [] \<or> name = ''Virtual Machine''"
    by (simp add: placeholder_def)
qed

theorem display_name_gate_witness:
  "inspect example_world (Path ''work'') (example_state [''x''])
     = (Inr (''Windows 3.1'', 2, 128, 1000),
        \<lparr>stdin = [''x''],
         trace = [Print (''Windows 3.1'' @ nl), Print (''cpus 2 memory 128'' @ nl),
                  Print (''Extracting disk image'' @ nl), Extract ''disk.img'' (Path ''work'')],
         recipes = Map.empty\<rparr>)
   \<and> inspect (example_world\<lparr>zipfile := Inr (example_archive\<lparr>vmnetx_package_xml := Some (Document
                \<lparr>attrib = [(''name'', ''Virtual Machine'')], children = []\<rparr>)\<rparr>)\<rparr>)
       (Path ''work'') (example_state ['''', ''Virtual Machine'', ''DOS 6'', ''y''])
     = (Inr (''DOS 6'', 2, 128, 1000),
        \<lparr>stdin = [''y''],
         trace = [Input ''VM image name: '', Input ''VM image name: '', Input ''VM image name: '',
                  Print (''DOS 6'' @ nl), Print (''cpus 2 memory 128'' @ nl),
                  Print (''Extracting disk image'' @ nl), Extract ''disk.img'' (Path ''work'')],
         recipes = Map.empty\<rparr>)
   \<and> inspect (example_world\<lparr>zipfile := Inr (example_archive\<lparr>vmnetx_package_xml := Some (Document
                \<lparr>attrib = [(''name'', '''')], children = []\<rparr>)\<rparr>)\<rparr>)
       (Path ''work'') (example_state ['''', ''Virtual Machine''])
     = (Inl EOFError,
        \<lparr>stdin = [],
         trace = [Input ''VM image name: '', Input ''VM image name: '', Input ''VM image name: ''],
         recipes = Map.empty\<rparr>)"
proof -
  let ?d = "\<lparr>attrib = [(''type'', ''kvm'')],
               children = [(''name'', Some ''machine''), (''memory'', Some ''131072''), (''vcpu'', Some ''2'')]\<rparr>"
  let ?p1 = "\<lparr>attrib = [(''name'', ''Windows 3.1'')], children = []\<rparr>"
  let ?p2 = "\<lparr>attrib = [(''name'', ''Virtual Machine'')], children = []\<rparr>"
  let ?p3 = "\<lparr>attrib = [(''name'', '''')], children = []\<rparr>"
  let ?z2 = "example_archive\<lparr>vmnetx_package_xml := Some (Document ?p2)\<rparr>"
  let ?z3 = "example_archive\<lparr>vmnetx_package_xml := Some (Document ?p3)\<rparr>"
  have sz: "sizing ?d = Inr (2, 128)"
    by (simp add: sizing_def findtext_def int_eval)
  have z: "zipfile example_world = Inr example_archive"
    "zipfile (example_world\<lparr>zipfile := Inr ?z2\<rparr>) = Inr ?z2"
    "zipfile (example_world\<lparr>zipfile := Inr ?z3\<rparr>) = Inr ?z3"
    by (simp_all add: example_world_def)
  have p: "vmnetx_package_xml example_archive = Some (Document ?p1)"
    "vmnetx_package_xml ?z2 = Some (Document ?p2)" "vmnetx_package_xml ?z3 = Some (Document ?p3)"
    by (simp_all add: example_archive_def)
  have a: "map_of (attrib ?p1) ''name'' = Some ''Windows 3.1''"
    "map_of (attrib ?p2) ''name'' = Some ''Virtual Machine''" "map_of (attrib ?p3) ''name'' = Some ''''"
    by simp_all
  have d: "domain_xml example_archive = Some (Document ?d)" "domain_xml ?z2 = Some (Document ?d)"
    "domain_xml ?z3 = Some (Document ?d)"
    by (simp_all add: example_archive_def)
  have k: "disk_img example_archive = Some 1000" "disk_img ?z2 = Some 1000" "disk_img ?z3 = Some 1000"
    by (simp_all add: example_archive_def)
  note t1 = display_name_gate[OF z(1) p(1) a(1) d(1) sz k(1),
      of "Path ''work''" "example_state [''x'']" "[]" "[]" "[]", THEN conjunct1]
  note t2 = display_name_gate[OF z(2) p(2) a(2) d(2) sz k(2),
      of "Path ''work''" "example_state ['''', ''Virtual Machine'', ''DOS 6'', ''y'']"
         "['''', ''Virtual Machine'']" "''DOS 6''" "[''y'']", THEN conjunct2, THEN conjunct1]
  note t3 = display_name_gate[OF z(3) p(3) a(3) d(3) sz k(3),
      of "Path ''work''" "example_state ['''', ''Virtual Machine'']" "[]" "[]" "[]",
      THEN conjunct2, THEN conjunct2, THEN conjunct1]
  have e1: "inspect example_world (Path ''work'') (example_state [''x''])
     = (Inr (''Windows 3.1'', 2, 128, 1000),
        \<lparr>stdin = [''x''],
         trace = [Print (''Windows 3.1'' @ nl), Print (''cpus 2 memory 128'' @ nl),
                  Print (''Extracting disk image'' @ nl), Extract ''disk.img'' (Path ''work'')],
         recipes = Map.empty\<rparr>)"
    using t1 by (simp add: placeholder_def example_state_def str_int_def str_nat.simps)
  have e2: "inspect (example_world\<lparr>zipfile := Inr ?z2\<rparr>)
       (Path ''work'') (example_state ['''', ''Virtual Machine'', ''DOS 6'', ''y''])
     = (Inr (''DOS 6'', 2, 128, 1000),
        \<lparr>stdin = [''y''],
         trace = [Input ''VM image name: '', Input ''VM image name: '', Input ''VM image name: '',
                  Print (''DOS 6'' @ nl), Print (''cpus 2 memory 128'' @ nl),
                  Print (''Extracting disk image'' @ nl), Extract ''disk.img'' (Path ''work'')],
         recipes = Map.empty\<rparr>)"
    using t2 by (simp add: placeholder_def example_state_def str_int_def str_nat.simps)
  have e3: "inspect (example_world\<lparr>zipfile := Inr ?z3\<rparr>)
       (Path ''work'') (example_state ['''', ''Virtual Machine''])
     = (Inl EOFError,
        \<lparr>stdin = [],
         trace = [Input ''VM image name: '', Input ''VM image name: '', Input ''VM image name: ''],
         recipes = Map.empty\<rparr>)"
    using t3 by (simp add: placeholder_def example_state_def)
  show ?thesis using e1 e2 e3 by (intro conjI)
qed


subsection \<open>The deployment waiter\<close>

lemma poll_waiting: "waiting (net k) \<Longrightarrow> poll net k s = poll net (Suc k) (retry s)"
  by (subst poll.simps) (auto simp: waiting_def split: probe.splits)

lemma poll_connected:
  "net k = Recv h \<Longrightarrow> startswith (take 3 h) ''RFB'' \<Longrightarrow> poll net k s = Some (Inr (), attempt s)"
  by (subst poll.simps) simp

lemma poll_after_waiting:
  assumes "\<forall>i < N. waiting (net (k + i))" and "net (k + N) = Recv h" and "startswith (take 3 h) ''RFB''"
  shows "poll net k s = Some (Inr (), attempt ((retry ^^ N) s))"
  using assms
proof (induction N arbitrary: k s)
  case 0
  then show ?case by (simp add: poll_connected)
next
  case (Suc N)
  have "waiting (net k)" using Suc.prems(1) by (metis add.right_neutral zero_less_Suc)
  then have "poll net k s = poll net (Suc k) (retry s)" by (rule poll_waiting)
  also have "\<dots> = Some (Inr (), attempt ((retry ^^ N) (retry s)))"
  proof (rule Suc.IH)
    show "\<forall>i<N. waiting (net (Suc k + i))"
      using Suc.prems(1) by (metis add_Suc_shift Suc_less_eq)
    show "net (Suc k + N) = Recv h" using Suc.prems(2) by simp
    show "startswith (take 3 h) ''RFB''" by (rule Suc.prems(3))
  qed
  finally show ?case by (simp add: funpow_swap1)
qed

lemma poll_returns_when_ready:
  assumes "poll net k s = Some r"
  shows "\<exists>j \<ge> k. \<not> waiting (net j)"
  using assms
proof (induction net k s r rule: poll.raw_induct[rotated 1, consumes 1])
  case (1 p net k s r)
  show ?case
  proof (cases "waiting (net k)")
    case False
    then show ?thesis by blast
  next
    case True
    then have "p net (Suc k) (retry s) = Some r"
      using 1(2) by (auto simp: waiting_def split: probe.splits if_splits)
    then obtain j where "j \<ge> Suc k" "\<not> waiting (net j)" using 1(1) by blast
    then show ?thesis by (meson Suc_leD)
  qed
qed

lemma poll_never_returns:
  "\<forall>j. waiting (net j) \<Longrightarrow> poll net k s = None"
  using poll_returns_when_ready by (metis option.exhaust)

lemma trace_retry_funpow:
  "trace ((retry ^^ N) s) = trace s @ concat (replicate N [Print ''.'', Connect ''vmi-vnc'' 5900, Sleep 1])"
  by (induction N arbitrary: s) (simp_all add: retry_def funpow_swap1)

lemma startswith_take: "startswith h ''RFB'' \<Longrightarrow> startswith (take 3 h) ''RFB''"
  by (simp add: startswith_def)

text \<open>
  Claim C4. If the first \<open>N\<close> attempts meet a name-resolution failure, a refused connection
  or a timeout, and attempt \<open>N + 1\<close> receives bytes that start with \<^verbatim>\<open>RFB\<close>, the loop ends
  at that attempt: the trace holds \<open>N\<close> attempts followed by a sleep, then one attempt, and
  no event of a client; the client is started after that. If every attempt meets one of
  the three exceptions, \<open>stage2\<close> never returns: no number of attempts ends the loop.
\<close>

theorem waiter_connects_on_first_handshake:
  "((\<forall>i < N. \<exists>e. connection d i = Raises e \<and> not_ready e) \<and> connection d N = Recv h
      \<and> startswith h ''RFB'' \<longrightarrow>
      (\<exists>s'. poll (connection d) 0
                (s\<lparr>trace := trace s @ [Print ''Waiting for VNC server to become available'']\<rparr>)
              = Some (Inr (), s')
           \<and> trace s' = trace s @ [Print ''Waiting for VNC server to become available'']
                          @ concat (replicate N [Print ''.'', Connect ''vmi-vnc'' 5900, Sleep 1])
                          @ [Print ''.'', Connect ''vmi-vnc'' 5900]
           \<and> stage2 d a s = Some (bind_io (print nl) (\<lambda>_. start_viewer d a) s')))
   \<and> not_ready Gaierror \<and> not_ready ConnectionRefusedError \<and> not_ready SocketTimeout
   \<and> ((\<forall>i. \<exists>e. connection d i = Raises e \<and> not_ready e) \<longrightarrow> stage2 d a s = None)"
proof (intro conjI impI)
  let ?s0 = "s\<lparr>trace := trace s @ [Print ''Waiting for VNC server to become available'']\<rparr>"
  assume h: "(\<forall>i < N. \<exists>e. connection d i = Raises e \<and> not_ready e) \<and> connection d N = Recv h
      \<and> startswith h ''RFB''"
  then have w: "\<forall>i < N. waiting (connection d (0 + i))"
    by (metis add_0 waiting_def probe.simps(5))
  have p: "poll (connection d) 0 ?s0 = Some (Inr (), attempt ((retry ^^ N) ?s0))"
    using poll_after_waiting[OF w, of h ?s0] h startswith_take by simp
  show "\<exists>s'. poll (connection d) 0 ?s0 = Some (Inr (), s')
           \<and> trace s' = trace s @ [Print ''Waiting for VNC server to become available'']
                          @ concat (replicate N [Print ''.'', Connect ''vmi-vnc'' 5900, Sleep 1])
                          @ [Print ''.'', Connect ''vmi-vnc'' 5900]
           \<and> stage2 d a s = Some (bind_io (print nl) (\<lambda>_. start_viewer d a) s')"
    using p by (simp add: attempt_def trace_retry_funpow stage2_def)
next
  assume "\<forall>i. \<exists>e. connection d i = Raises e \<and> not_ready e"
  then have "\<forall>j. waiting (connection d j)" by (metis waiting_def probe.simps(5))
  then have n: "poll (connection d) k s = None" for k s by (rule poll_never_returns)
  show "stage2 d a s = None" by (simp add: stage2_def n)
qed (simp_all add: not_ready_def)

theorem waiter_connects_on_first_handshake_witness:
  "stage2 (example_desktop (\<lambda>k. if k < 2 then Raises ConnectionRefusedError else Recv ''RFB 003.008''))
      example_args (example_state [])
     = Some (Inr (), \<lparr>stdin = [],
          trace = [Print ''Waiting for VNC server to become available'',
                   Print ''.'', Connect ''vmi-vnc'' 5900, Sleep 1,
                   Print ''.'', Connect ''vmi-vnc'' 5900, Sleep 1,
                   Print ''.'', Connect ''vmi-vnc'' 5900,
                   Print nl, Run [''/usr/bin/vncviewer'', ''vmi-vnc:0'']],
          recipes = Map.empty\<rparr>)
   \<and> stage2 (example_desktop (\<lambda>k. Raises SocketTimeout)) example_args (example_state []) = None"
proof -
  have a: "\<exists>s'. stage2 (example_desktop (\<lambda>k. if k < 2 then Raises ConnectionRefusedError else Recv ''RFB 003.008''))
      example_args (example_state []) = Some (bind_io (print nl) (\<lambda>_. start_viewer (example_desktop (\<lambda>k. if k < 2 then Raises ConnectionRefusedError else Recv ''RFB 003.008'')) example_args) s')
    \<and> trace s' = trace (example_state []) @ [Print ''Waiting for VNC server to become available'']
                          @ concat (replicate 2 [Print ''.'', Connect ''vmi-vnc'' 5900, Sleep 1])
                          @ [Print ''.'', Connect ''vmi-vnc'' 5900]
    \<and> poll (\<lambda>k. if k < 2 then Raises ConnectionRefusedError else Recv ''RFB 003.008'') 0
          ((example_state [])\<lparr>trace := trace (example_state []) @ [Print ''Waiting for VNC server to become available'']\<rparr>)
        = Some (Inr (), s')"
    using waiter_connects_on_first_handshake
      [of 2 "example_desktop (\<lambda>k. if k < 2 then Raises ConnectionRefusedError else Recv ''RFB 003.008'')"
          "''RFB 003.008''" "example_state []" example_args]
    by (auto simp: example_desktop_def not_ready_def startswith_def)
  have b: "stage2 (example_desktop (\<lambda>k. Raises SocketTimeout)) example_args (example_state []) = None"
    using waiter_connects_on_first_handshake
      [of 0 "example_desktop (\<lambda>k. Raises SocketTimeout)" "[]" "example_state []" example_args]
    by (simp add: example_desktop_def not_ready_def)
  have c: "poll (\<lambda>k. if k < 2 then Raises ConnectionRefusedError else Recv ''RFB 003.008'') 0 s
            = Some (Inr (), attempt (retry (retry s)))" for s
    by (simp add: poll_waiting poll_connected waiting_def not_ready_def startswith_def)
  show ?thesis
    using a b
    by (simp add: c stage2_def example_desktop_def example_state_def example_args_def attempt_def
          retry_def bind_io_def print_def emit_def start_viewer_def subprocess_run_def return_def)
qed


subsection \<open>Publication and the recipe\<close>

text \<open>
  Claim C10. With \<^verbatim>\<open>--tmp-dir\<close> given, no event of \<open>convert\<close> is the push-confirmation
  prompt, a \<^verbatim>\<open>docker push\<close>, a \<^verbatim>\<open>docker image rm\<close> or the removal of a file or directory;
  and when the container image has been built, the build is the last event before the
  recipe is emitted.
\<close>

theorem persistent_tmp_dir_skips_publication:
  assumes "tmp_dir a = Some d"
  shows "(\<exists>evs. trace (snd (convert w a s)) = trace s @ evs \<and> (\<forall>ev \<in> set evs. \<not> publishes_or_deletes ev))
       \<and> (\<forall>info s1. dry_run a = [] \<longrightarrow> prepare w a s = (Inr info, s1) \<longrightarrow>
             last (trace s1) = Run [''docker'', ''build'', ''-t'', DOCKER_TAG a (fst info), resolve w (Path d)]
             \<and> convert w a s = emit_recipe a info s1)"
proof (intro conjI allI impI)
  have ap: "appends (\<lambda>ev. \<not> publishes_or_deletes ev) (prepare w a)"
    using assms by (intro appends_prepare) simp_all
  show "\<exists>evs. trace (snd (convert w a s)) = trace s @ evs \<and> (\<forall>ev \<in> set evs. \<not> publishes_or_deletes ev)"
  proof (cases "dry_run a = []")
    case False
    then show ?thesis by (simp add: convert_def raise_def)
  next
    case True
    obtain r s1 where p: "prepare w a s = (r, s1)" by (cases "prepare w a s")
    from ap obtain evs1 where e1: "trace s1 = trace s @ evs1" "\<forall>ev \<in> set evs1. \<not> publishes_or_deletes ev"
      unfolding appends_def using p by (metis snd_conv)
    show ?thesis
    proof (cases r)
      case (Inl e)
      then show ?thesis using True p e1
        by (simp add: convert_def with_block_persistent[OF assms] bind_io_def)
    next
      case (Inr info)
      obtain evs2 where e2: "trace (snd (emit_recipe a info s1)) = trace s1 @ evs2"
          "\<forall>ev \<in> set evs2. \<not> publishes_or_deletes ev"
        using emit_recipe_trace by blast
      have "trace (snd (convert w a s)) = trace s @ (evs1 @ evs2)"
        using True p Inr e1 e2 by (simp add: convert_def with_block_persistent[OF assms] bind_io_def)
      moreover have "\<forall>ev \<in> set (evs1 @ evs2). \<not> publishes_or_deletes ev"
        using e1 e2 by auto
      ultimately show ?thesis by blast
    qed
  qed
next
  fix info s1
  assume d: "dry_run a = []" and p: "prepare w a s = (Inr info, s1)"
  show "last (trace s1) = Run [''docker'', ''build'', ''-t'', DOCKER_TAG a (fst info), resolve w (Path d)]"
    using prepare_last_event[OF p] assms by (simp add: temporary_directory_def)
  show "convert w a s = emit_recipe a info s1"
    using d p by (simp add: convert_def with_block_persistent[OF assms] bind_io_def)
qed

lemma unpack2_error: "unpack2 xs = Inl e \<Longrightarrow> e = ValueError"
  by (auto simp: unpack2_def split: list.splits)

lemma credentials_without_colon:
  assumes "deploy_token a = Some token" and "CHR '':'' \<notin> set token"
  shows "credentials a = Inl ValueError"
proof -
  have t: "unpack2 (str_split1 token CHR '':'') = Inl ValueError"
    using assms(2) by (simp add: str_split1_def unpack2_def)
  show ?thesis
  proof (cases "unpack2 (str_split1 (registry a) CHR ''/'')")
    case (Inl e)
    then show ?thesis using assms(1) unpack2_error[OF Inl] by (simp add: credentials_def)
  next
    case (Inr p)
    then show ?thesis using assms(1) t by (cases p) (simp add: credentials_def)
  qed
qed

lemma emit_recipe_fails:
  assumes "credentials a = Inl e"
  shows "emit_recipe a (u, n, c, m) s
           = (Inl e, s\<lparr>trace := trace s @ [Print (''Creating Sinfonia recipe '' @ str_uuid u @ nl)]\<rparr>)"
  using assms by (simp add: emit_recipe_def bind_io_def print_def emit_def lift_def raise_def)


text \<open>
  Claim C7. With a deploy token that holds no colon, \<open>convert\<close> never returns normally and
  the recipe store stays as it was. The access-control block cannot be built: the tuple
  assignment of line 234 raises ValueError, which is the failure of \<open>convert\<close> whenever
  the stages before the recipe succeed, and nothing is written before it.
\<close>

theorem malformed_credentials_fail_before_recipe:
  assumes "deploy_token a = Some token" and "CHR '':'' \<notin> set token"
  shows "fst (convert w a s) \<noteq> Inr ()
       \<and> recipes (snd (convert w a s)) = recipes s
       \<and> credentials a = Inl ValueError
       \<and> (\<forall>u n c m s1. dry_run a = [] \<longrightarrow> with_tmp_ctx w a (with_block w a) s = (Inr (u, n, c, m), s1) \<longrightarrow>
            convert w a s
              = (Inl ValueError,
                 s1\<lparr>trace := trace s1 @ [Print (''Creating Sinfonia recipe '' @ str_uuid u @ nl)]\<rparr>))"
proof -
  have cr: "credentials a = Inl ValueError"
    by (rule credentials_without_colon[OF assms])
  obtain r s1 where wb: "with_tmp_ctx w a (with_block w a) s = (r, s1)"
    by (cases "with_tmp_ctx w a (with_block w a) s")
  have fr: "recipes s1 = recipes s"
    using frame_with_block[of w a s] wb by simp
  have 1: "fst (convert w a s) \<noteq> Inr () \<and> recipes (snd (convert w a s)) = recipes s"
  proof (cases "dry_run a = []")
    case False
    then show ?thesis by (simp add: convert_def raise_def)
  next
    case True
    show ?thesis
    proof (cases r)
      case (Inl e)
      then show ?thesis using True wb fr by (simp add: convert_def bind_io_def)
    next
      case (Inr info)
      obtain u n c m where "info = (u, n, c, m)" by (cases info)
      then show ?thesis
        using True wb fr Inr emit_recipe_fails[OF cr, of u n c m s1]
        by (simp add: convert_def bind_io_def)
    qed
  qed
  have 2: "convert w a s = (Inl ValueError,
                 s1'\<lparr>trace := trace s1' @ [Print (''Creating Sinfonia recipe '' @ str_uuid u @ nl)]\<rparr>)"
    if "dry_run a = []" "with_tmp_ctx w a (with_block w a) s = (Inr (u, n, c, m), s1')" for u n c m s1'
    using that emit_recipe_fails[OF cr, of u n c m s1'] by (simp add: convert_def bind_io_def)
  show ?thesis using 1 cr 2 by blast
qed








subsection \<open>The example run\<close>

lemmas io_eval = bind_io_def return_def raise_def lift_def emit_def print_def input_def
  sleep_def subprocess_run_def

lemmas convert_eval = XML_def getitem_def findtext_def name_loop.simps sizing_def
  compression_def compression_report_def fetch_def inspect_def encode_def build_def
  publish_def temporary_directory_def prepare_def with_block_def with_tmp_ctx_def
  write_recipe_def emit_recipe_def convert_def

lemmas example_eval = example_archive_def example_world_def example_args_def
  example_state_def accepting_def

lemma example_identity:
  "vmnetx_url_to_uuid accepting ''vmnetx://olivearchive.org/vm/win31'' = Inr example_uuid"
  by (simp add: vmnetx_url_to_uuid_def example_uuid_def str_eval urlparse_eval)




theorem malformed_credentials_fail_before_recipe_witness:
  "convert example_world (example_args\<lparr>deploy_token := Some ''alicesecret''\<rparr>) (example_state [''''])
     = (Inl ValueError,
        snd (with_tmp_ctx example_world (example_args\<lparr>deploy_token := Some ''alicesecret''\<rparr>)
               (with_block example_world (example_args\<lparr>deploy_token := Some ''alicesecret''\<rparr>))
               (example_state ['''']))
          \<lparr>trace := trace (snd (with_tmp_ctx example_world (example_args\<lparr>deploy_token := Some ''alicesecret''\<rparr>)
               (with_block example_world (example_args\<lparr>deploy_token := Some ''alicesecret''\<rparr>))
               (example_state ['''']))) @ [Print (''Creating Sinfonia recipe '' @ str_uuid example_uuid @ nl)]\<rparr>)
   \<and> recipes (snd (convert example_world (example_args\<lparr>deploy_token := Some ''alicesecret''\<rparr>)
                      (example_state ['''']))) = Map.empty
   \<and> exit_status (fst (convert example_world (example_args\<lparr>deploy_token := Some ''alicesecret''\<rparr>)
                      (example_state ['''']))) = 1"
proof -
  let ?a = "example_args\<lparr>deploy_token := Some ''alicesecret''\<rparr>"
  have t: "deploy_token ?a = Some ''alicesecret''" "CHR '':'' \<notin> set ''alicesecret''" "dry_run ?a = []"
    by (simp_all add: example_args_def)
  have f: "fst (with_tmp_ctx example_world ?a (with_block example_world ?a) (example_state ['''']))
             = Inr (example_uuid, ''Windows 3.1'', 2, 128)"
    using example_identity
    by (simp add: example_eval io_eval int_eval convert_eval nl_def DOCKER_TAG_def)
  then have wb: "with_tmp_ctx example_world ?a (with_block example_world ?a) (example_state [''''])
      = (Inr (example_uuid, ''Windows 3.1'', 2, 128),
         snd (with_tmp_ctx example_world ?a (with_block example_world ?a) (example_state [''''])))"
    by (metis prod.collapse)
  note th = malformed_credentials_fail_before_recipe[OF t(1,2), of example_world "example_state ['''']"]
  from th have c: "convert example_world ?a (example_state [''''])
      = (Inl ValueError,
         snd (with_tmp_ctx example_world ?a (with_block example_world ?a) (example_state ['''']))
           \<lparr>trace := trace (snd (with_tmp_ctx example_world ?a (with_block example_world ?a)
                                  (example_state ['''']))) @ [Print (''Creating Sinfonia recipe '' @ str_uuid example_uuid @ nl)]\<rparr>)"
    using t(3) wb by blast
  from th have r: "recipes (snd (convert example_world ?a (example_state ['''']))) = recipes (example_state [''''])"
    by blast
  have e: "exit_status (fst (convert example_world ?a (example_state ['''']))) = 1"
    by (simp add: c exit_status_def)
  show ?thesis
    using c r e by (simp add: example_state_def)
qed


theorem persistent_tmp_dir_skips_publication_witness:
  "fst (convert example_world (example_args\<lparr>tmp_dir := Some ''work''\<rparr>) (example_state [''''])) = Inr ()
   \<and> list_all (\<lambda>ev. \<not> publishes_or_deletes ev)
        (trace (snd (convert example_world (example_args\<lparr>tmp_dir := Some ''work''\<rparr>) (example_state ['''']))))
   \<and> recipes (snd (convert example_world (example_args\<lparr>tmp_dir := Some ''work''\<rparr>) (example_state [''''])))
       = [with_suffix (str_uuid example_uuid) ''.yaml'' \<mapsto>
            recipe_values ''reg.example.com/proj'' example_uuid ''Windows 3.1'' 2 128
            @ ''  restricted: false'']"
proof -
  let ?a = "example_args\<lparr>tmp_dir := Some ''work''\<rparr>"
  have t: "tmp_dir ?a = Some ''work''" by (simp add: example_args_def)
  have "\<exists>evs. trace (snd (convert example_world ?a (example_state ['''']))) = evs
            \<and> (\<forall>ev \<in> set evs. \<not> publishes_or_deletes ev)"
    using persistent_tmp_dir_skips_publication[OF t, of example_world "example_state ['''']"]
    by (simp add: example_state_def)
  then have l: "list_all (\<lambda>ev. \<not> publishes_or_deletes ev)
        (trace (snd (convert example_world ?a (example_state ['''']))))"
    by (simp add: list_all_iff)
  have r: "fst (convert example_world ?a (example_state [''''])) = Inr ()"
    "recipes (snd (convert example_world ?a (example_state [''''])))
       = [with_suffix (str_uuid example_uuid) ''.yaml'' \<mapsto>
            recipe_values ''reg.example.com/proj'' example_uuid ''Windows 3.1'' 2 128
            @ ''  restricted: false'']"
    using example_identity
    by (simp_all add: example_eval io_eval int_eval convert_eval credentials_def nl_def DOCKER_TAG_def)
  show ?thesis using l r by simp
qed


end
